theory Spec2Isabelle
  imports Main "HOL-Library.Multiset"
begin


section \<open>Data model\<close>

text \<open>
  The four tax-regime labels that \<open>getTaxRegimeFromData\<close> can return, and the three
  provider names passed to \<open>updateTaxConsensus\<close> and \<open>handleFailure\<close>.
\<close>

datatype regime = SIMEI | Simples | Normal | Outros

datatype api_name = CNPJA | ReceitaWS | MinhaReceita

text \<open>
  A provider record, reduced to the fields the reconciliation logic reads. A field that
  is compared with \<open>=== true\<close> / \<open>=== false\<close> is a \<open>bool option\<close>: \<open>None\<close> stands for
  an absent field (or any value that is neither \<open>true\<close> nor \<open>false\<close>). The optional
  chains \<open>data.simei?.optante\<close>, \<open>data.company?.simples?.optant\<close> ... are flattened
  into one field each.
\<close>

record api_data =
  status :: "string option"
  uf :: "string option"
  cnpj :: "string option"
  opcao_pelo_mei :: "bool option"
  opcao_pelo_simples :: "bool option"
  simei_optante :: "bool option"
  simples_optante :: "bool option"
  simples_optant :: "bool option"
  company_simei_optant :: "bool option"
  company_simples_optant :: "bool option"
  registrations :: "string list"

text \<open>The object \<open>taxRegimeConsensus\<close>; \<open>confirmed: null\<close> is \<open>None\<close>.\<close>

record consensus =
  sources :: "(api_name \<times> regime) list"
  confirmed :: "regime option"
  needsWarning :: bool

text \<open>
  What reaches the page, in the order the code does it. The templating functions
  themselves are not modelled: each call to one of them is recorded with its arguments.
  \<open>TaxRegimeDisplay t\<close> is the write of \<open>t\<close> into the tax element of the card on screen
  by \<open>updateTaxRegimeDisplay\<close>.
\<close>

datatype ui_event =
    TaxRegimeDisplay string
  | RenderCardFromCNPJA api_data consensus
  | RenderCardFromMinhaReceita api_data consensus
  | RenderCardFromReceitaWS api_data consensus
  | UpdateCardWithIEData "api_data option" "string option"
  | AddWarningMessage string
  | MostrarErro string

text \<open>
  The variables of one run of \<open>consultarCNPJ\<close> that its handlers share, and what the run
  has made of the page. \<open>cardOnScreen\<close> says whether \<open>resultsDiv\<close> holds a company card:
  each of the three card templates contains the one element of class \<open>tax-regime-bar\<close>
  that the code creates, so this is what \<open>document.querySelector('.tax-regime-bar')\<close>
  finds. \<open>consultarCNPJ\<close> empties \<open>resultsDiv\<close> before it starts, every
  \<open>renderCardFrom...\<close> call fills it with a card, and \<open>mostrarErro\<close> replaces its
  content by the error message.
\<close>

record orch_state =
  cnpjaDataCache :: "api_data option"
  receitaWsDataCache :: "api_data option"
  minhaReceitaDataCache :: "api_data option"
  hasRendered :: bool
  failedApiCount :: nat
  taxRegimeConsensus :: consensus
  loadingDisplay :: string
  cardOnScreen :: bool
  events :: "ui_event list"

section \<open>Consensus resolver\<close>

definition getTaxRegimeFromData :: "api_data option \<Rightarrow> regime" where
  "getTaxRegimeFromData data =
     (case data of
        None \<Rightarrow> Outros
      | Some d \<Rightarrow>
          if opcao_pelo_mei d = Some True \<or> simei_optante d = Some True
               \<or> company_simei_optant d = Some True
          then SIMEI
          else if opcao_pelo_simples d = Some True \<or> simples_optante d = Some True
               \<or> company_simples_optant d = Some True
          then Simples
          else if opcao_pelo_simples d = Some False \<or> simples_optant d = Some False
               \<or> company_simples_optant d = Some False
          then Normal
          else Outros)"

text \<open>
  The warning icon appended to the label, as the literal stands in the source file: a
  space and the six characters U+201A U+00F6 U+2020 U+00D4 U+220F U+00E8, here in UTF-8.
\<close>

definition warningIcon :: string where
  "warningIcon =
     [CHR '' '', CHR 0xE2, CHR 0x80, CHR 0x9A, CHR 0xC3, CHR 0xB6, CHR 0xE2, CHR 0x80,
      CHR 0xA0, CHR 0xC3, CHR 0x94, CHR 0xE2, CHR 0x88, CHR 0x8F, CHR 0xC3, CHR 0xA8]"

definition regimeMap :: "regime \<Rightarrow> string" where
  "regimeMap r =
     (case r of SIMEI \<Rightarrow> ''S I M E I'' | Simples \<Rightarrow> ''Simples''
      | Normal \<Rightarrow> ''Trib: Normal'' | Outros \<Rightarrow> ''Trib: Outros'')"

text \<open>\<open>getTaxRegimeInfo\<close> returns the text and the CSS class.\<close>

definition getTaxRegimeInfo :: "consensus \<Rightarrow> string \<times> string" where
  "getTaxRegimeInfo c =
     (let text = (case confirmed c of Some r \<Rightarrow> regimeMap r | None \<Rightarrow> ''Trib: Outros'');
          icon = (if needsWarning c then warningIcon else [])
      in (text @ icon, ''tax-regime-bar''))"

text \<open>
  \<open>updateTaxRegimeDisplay\<close> returns at once when no element of class
  \<open>tax-regime-bar\<close> is found; otherwise it writes the text of \<open>getTaxRegimeInfo\<close> into it.
\<close>

definition updateTaxRegimeDisplay :: "orch_state \<Rightarrow> orch_state" where
  "updateTaxRegimeDisplay st =
     (if \<not> cardOnScreen st then st
      else st\<lparr>events := events st @
                 [TaxRegimeDisplay (fst (getTaxRegimeInfo (taxRegimeConsensus st)))]\<rparr>)"

definition updateTaxConsensus :: "api_name \<Rightarrow> api_data option \<Rightarrow> orch_state \<Rightarrow> orch_state" where
  "updateTaxConsensus apiName data st =
     (let regime = getTaxRegimeFromData data;
          srcs = sources (taxRegimeConsensus st) @ [(apiName, regime)];
          regimes = map snd srcs;
          conf = (if SIMEI \<in> set regimes then SIMEI
                  else if Simples \<in> set regimes then Simples
                  else if Normal \<in> set regimes then Normal
                  else Outros);
          votesForConfirmed = int (length (filter (\<lambda>r. r = conf) regimes));
          dissentingVotes = int (length regimes) - votesForConfirmed;
          st' = st\<lparr>taxRegimeConsensus :=
                  \<lparr>sources = srcs, confirmed = Some conf,
                   needsWarning = (votesForConfirmed \<le> dissentingVotes)\<rparr>\<rparr>
      in if hasRendered st' then updateTaxRegimeDisplay st' else st')"

section \<open>Query orchestrator\<close>

definition TOTAL_APIS :: nat where
  "TOTAL_APIS = 3"

definition initState :: orch_state where
  "initState =
     \<lparr>cnpjaDataCache = None, receitaWsDataCache = None, minhaReceitaDataCache = None,
      hasRendered = False, failedApiCount = 0,
      taxRegimeConsensus = \<lparr>sources = [], confirmed = None, needsWarning = False\<rparr>,
      loadingDisplay = ''block'', cardOnScreen = False, events = []\<rparr>"

definition handleFailure :: "api_name \<Rightarrow> orch_state \<Rightarrow> orch_state" where
  "handleFailure apiName st =
     (let st1 = st\<lparr>failedApiCount := failedApiCount st + 1\<rparr>
      in if failedApiCount st1 = TOTAL_APIS
         then st1\<lparr>loadingDisplay := ''none'', cardOnScreen := False,
                  events := events st1 @
                    [MostrarErro ''Todas as fontes de dados falharam. Tente novamente mais tarde.'']\<rparr>
         else st1)"

definition handleCnpjaResponse :: "api_data option \<Rightarrow> orch_state \<Rightarrow> orch_state" where
  "handleCnpjaResponse data st =
     (case data of
        None \<Rightarrow> handleFailure CNPJA st
      | Some d \<Rightarrow>
          let st1 = st\<lparr>cnpjaDataCache := Some d\<rparr>;
              st2 = updateTaxConsensus CNPJA (Some d) st1
          in (case receitaWsDataCache st2 of
                Some r \<Rightarrow>
                  st2\<lparr>events := events st2 @ [UpdateCardWithIEData (cnpjaDataCache st2) (uf r)]\<rparr>
              | None \<Rightarrow>
                  if \<not> hasRendered st2
                  then st2\<lparr>loadingDisplay := ''none'', hasRendered := True,
                           cardOnScreen := True,
                           events := events st2 @
                             [RenderCardFromCNPJA d (taxRegimeConsensus st2)]\<rparr>
                  else st2))"

definition handleMinhaReceitaResponse :: "api_data option \<Rightarrow> orch_state \<Rightarrow> orch_state" where
  "handleMinhaReceitaResponse data st =
     (case data of
        None \<Rightarrow> handleFailure MinhaReceita st
      | Some d \<Rightarrow>
          let st1 = st\<lparr>minhaReceitaDataCache := Some d\<rparr>;
              st2 = updateTaxConsensus MinhaReceita (Some d) st1
          in if receitaWsDataCache st2 = None \<and> \<not> hasRendered st2
             then st2\<lparr>loadingDisplay := ''none'', hasRendered := True,
                      cardOnScreen := True,
                      events := events st2 @
                        [RenderCardFromMinhaReceita d (taxRegimeConsensus st2),
                         AddWarningMessage
                           ''Exibindo dados preliminares. Atualizando com a fonte principal...'']\<rparr>
             else st2)"

definition handleReceitaWsResponse :: "api_data option \<Rightarrow> orch_state \<Rightarrow> orch_state" where
  "handleReceitaWsResponse data st =
     (case data of
        None \<Rightarrow> handleFailure ReceitaWS st
      | Some d \<Rightarrow>
          let st1 = st\<lparr>loadingDisplay := ''none'', hasRendered := True,
                       receitaWsDataCache := Some d\<rparr>;
              st2 = updateTaxConsensus ReceitaWS (Some d) st1
          in st2\<lparr>cardOnScreen := True,
                 events := events st2 @
                   [RenderCardFromReceitaWS d (taxRegimeConsensus st2),
                    UpdateCardWithIEData (cnpjaDataCache st2) (uf d)]\<rparr>)"

text \<open>
  The three promises are wired to their handlers by \<open>.then\<close>; each arrival is the
  provider's name with what its adapter resolved to (\<open>None\<close> for \<open>null\<close>). A run handles
  the arrivals one after the other, in the order they come.
\<close>

fun deliver :: "api_name \<times> api_data option \<Rightarrow> orch_state \<Rightarrow> orch_state" where
  "deliver (CNPJA, data) st = handleCnpjaResponse data st"
| "deliver (ReceitaWS, data) st = handleReceitaWsResponse data st"
| "deliver (MinhaReceita, data) st = handleMinhaReceitaResponse data st"

fun runArrivals :: "(api_name \<times> api_data option) list \<Rightarrow> orch_state \<Rightarrow> orch_state" where
  "runArrivals [] st = st"
| "runArrivals (a # as) st = runArrivals as (deliver a st)"

section \<open>Source adapters\<close>

text \<open>
  What one pass through an adapter's \<open>try\<close> block meets. \<open>Throws\<close>: an exception is
  raised inside the block (\<open>fetch\<close> rejects, or reading and parsing the body throws; in
  \<open>consultarReceitaWS\<close> this includes a body that parses to \<open>null\<close>, since
  \<open>result.status\<close> is read). \<open>HttpNotOk s\<close>: a response with \<open>response.ok\<close> false and
  HTTP status \<open>s\<close>. \<open>HttpOk p\<close>: \<open>response.ok\<close> and a body that decodes to the object
  \<open>p\<close>. A body that decodes to something other than an object is not a case of its own:
  \<open>consultarMinhaReceitaAPI\<close> treats \<open>null\<close> as it treats a response that is not ok.
  The environment of an adapter gives the outcome of its \<open>attempt\<close>-th fetch; the
  request itself (the URL built from the identifier) is fixed and left out.
\<close>

datatype fetch_outcome = Throws | HttpNotOk nat | HttpOk api_data

text \<open>
  What an adapter does besides resolving: the calls to \<open>fetch\<close> and to \<open>delay\<close>, in
  order. Log lines are left out.
\<close>

datatype effect = Fetch | Delay nat

text \<open>\<open>consultarCNPJA_API\<close>: one fetch, no loop.\<close>

definition consultarCNPJA_API :: "(nat \<Rightarrow> fetch_outcome) \<Rightarrow> api_data option \<times> effect list" where
  "consultarCNPJA_API env =
     (case env 1 of
        HttpOk p \<Rightarrow> (Some p, [Fetch])
      | HttpNotOk s \<Rightarrow> (None, [Fetch])
      | Throws \<Rightarrow> (None, [Fetch]))"

definition MAX_RETRIES_ReceitaWS :: nat where
  "MAX_RETRIES_ReceitaWS = 3"

definition MAX_RETRIES_MinhaReceita :: nat where
  "MAX_RETRIES_MinhaReceita = 2"

definition RETRY_DELAY_MS :: nat where
  "RETRY_DELAY_MS = 1500"

text \<open>
  The \<open>try\<close>/\<open>catch\<close> of one attempt of \<open>consultarReceitaWS\<close>: \<open>Some result\<close> when the
  attempt executes \<open>return result\<close>, \<open>None\<close> when control reaches the code after the
  \<open>catch\<close>.
\<close>

definition receitaWsAttempt :: "fetch_outcome \<Rightarrow> api_data option" where
  "receitaWsAttempt r =
     (case r of
        HttpOk result \<Rightarrow> if status result \<noteq> Some ''ERROR'' then Some result else None
      | HttpNotOk s \<Rightarrow> None
      | Throws \<Rightarrow> None)"

function consultarReceitaWS_loop ::
    "(nat \<Rightarrow> fetch_outcome) \<Rightarrow> nat \<Rightarrow> api_data option \<times> effect list" where
  "consultarReceitaWS_loop env attempt =
     (if attempt \<le> MAX_RETRIES_ReceitaWS
      then (case receitaWsAttempt (env attempt) of
              Some result \<Rightarrow> (Some result, [Fetch])
            | None \<Rightarrow>
                (case consultarReceitaWS_loop env (attempt + 1) of
                   (res, rest) \<Rightarrow>
                     (res, Fetch #
                        (if attempt < MAX_RETRIES_ReceitaWS then [Delay RETRY_DELAY_MS] else [])
                        @ rest)))
      else (None, []))"
  by pat_completeness auto
termination
  by (relation "measure (\<lambda>(env, attempt). MAX_RETRIES_ReceitaWS + 1 - attempt)") auto

definition consultarReceitaWS :: "(nat \<Rightarrow> fetch_outcome) \<Rightarrow> api_data option \<times> effect list" where
  "consultarReceitaWS env = consultarReceitaWS_loop env 1"

text \<open>
  One attempt of \<open>consultarMinhaReceitaAPI\<close>: the result must be truthy and carry a
  truthy \<open>cnpj\<close> field (a non-empty string).
\<close>

definition minhaReceitaAttempt :: "fetch_outcome \<Rightarrow> api_data option" where
  "minhaReceitaAttempt r =
     (case r of
        HttpOk result \<Rightarrow>
          (case cnpj result of
             Some c \<Rightarrow> if c \<noteq> [] then Some result else None
           | None \<Rightarrow> None)
      | HttpNotOk s \<Rightarrow> None
      | Throws \<Rightarrow> None)"

function consultarMinhaReceitaAPI_loop ::
    "(nat \<Rightarrow> fetch_outcome) \<Rightarrow> nat \<Rightarrow> api_data option \<times> effect list" where
  "consultarMinhaReceitaAPI_loop env attempt =
     (if attempt \<le> MAX_RETRIES_MinhaReceita
      then (case minhaReceitaAttempt (env attempt) of
              Some result \<Rightarrow> (Some result, [Fetch])
            | None \<Rightarrow>
                (case consultarMinhaReceitaAPI_loop env (attempt + 1) of
                   (res, rest) \<Rightarrow>
                     (res, Fetch #
                        (if attempt < MAX_RETRIES_MinhaReceita then [Delay RETRY_DELAY_MS] else [])
                        @ rest)))
      else (None, []))"
  by pat_completeness auto
termination
  by (relation "measure (\<lambda>(env, attempt). MAX_RETRIES_MinhaReceita + 1 - attempt)") auto

definition consultarMinhaReceitaAPI ::
    "(nat \<Rightarrow> fetch_outcome) \<Rightarrow> api_data option \<times> effect list" where
  "consultarMinhaReceitaAPI env = consultarMinhaReceitaAPI_loop env 1"

section \<open>Identifier validation\<close>

definition isDigit :: "char \<Rightarrow> bool" where
  "isDigit c = (48 \<le> (of_char c :: nat) \<and> (of_char c :: nat) \<le> 57)"

definition limparCNPJ :: "string \<Rightarrow> string" where
  "limparCNPJ str = filter isDigit str"

text \<open>\<open>s.charAt(k)\<close>: the empty string when \<open>k\<close> is out of range.\<close>

definition charAt :: "string \<Rightarrow> nat \<Rightarrow> string" where
  "charAt s k = (if k < length s then [s ! k] else [])"

text \<open>
  \<open>parseInt(s, 10)\<close> for the strings \<open>charAt\<close> gives, of at most one character: the
  digit's value, or NaN (\<open>None\<close>). Numbers that may be NaN are \<open>int option\<close>; sums and
  products with NaN are NaN, and \<open>===\<close> with NaN on either side is false.
\<close>

fun parseIntChar :: "string \<Rightarrow> int option" where
  "parseIntChar [] = None"
| "parseIntChar (c # cs) = (if isDigit c then Some (int (of_char c) - 48) else None)"

fun nanAdd :: "int option \<Rightarrow> int option \<Rightarrow> int option" where
  "nanAdd (Some a) (Some b) = Some (a + b)"
| "nanAdd a b = None"

fun nanMul :: "int option \<Rightarrow> int option \<Rightarrow> int option" where
  "nanMul (Some a) (Some b) = Some (a * b)"
| "nanMul a b = None"

fun strictEq :: "int option \<Rightarrow> int option \<Rightarrow> bool" where
  "strictEq (Some a) (Some b) = (a = b)"
| "strictEq a b = False"

text \<open>The pattern \<open>/^(\d)\1+$/\<close>: a digit followed by one or more copies of itself.\<close>

definition repeatedDigit :: "string \<Rightarrow> bool" where
  "repeatedDigit s =
     (case s of [] \<Rightarrow> False | c # cs \<Rightarrow> isDigit c \<and> cs \<noteq> [] \<and> list_all (\<lambda>x. x = c) cs)"

text \<open>
  The loop \<open>for (let i = tamanho; i >= 1; i--)\<close> of \<open>validarCNPJ\<close>, which occurs twice:
  the argument \<open>Suc k\<close> is \<open>i\<close>, and the result is \<open>soma\<close> when the loop ends.
\<close>

fun somaLoop :: "string \<Rightarrow> nat \<Rightarrow> nat \<Rightarrow> int option \<Rightarrow> int \<Rightarrow> int option" where
  "somaLoop numeros tamanho 0 soma pos = soma"
| "somaLoop numeros tamanho (Suc k) soma pos =
     (let soma' = nanAdd soma
                    (nanMul (parseIntChar (charAt numeros (tamanho - Suc k))) (Some pos));
          pos' = pos - 1;
          pos'' = (if pos' < 2 then 9 else pos')
      in somaLoop numeros tamanho k soma' pos'')"

text \<open>\<open>soma % 11 < 2 ? 0 : 11 - (soma % 11)\<close>; \<open>soma\<close> is never negative.\<close>

fun resultadoOf :: "int option \<Rightarrow> int option" where
  "resultadoOf None = None"
| "resultadoOf (Some soma) = Some (if soma mod 11 < 2 then 0 else 11 - soma mod 11)"

definition validarCNPJ :: "string \<Rightarrow> bool" where
  "validarCNPJ str =
     (let cnpjLimpo = limparCNPJ str
      in if length cnpjLimpo \<noteq> 14 \<or> repeatedDigit cnpjLimpo then False
         else
           let tamanho = length cnpjLimpo - 2;
               numeros = take tamanho cnpjLimpo;
               digitos = drop tamanho cnpjLimpo;
               soma = somaLoop numeros tamanho tamanho (Some 0) (int tamanho - 7);
               resultado = resultadoOf soma
           in if \<not> strictEq resultado (parseIntChar (charAt digitos 0)) then False
              else
                let tamanho2 = tamanho + 1;
                    numeros2 = take tamanho2 cnpjLimpo;
                    soma2 = somaLoop numeros2 tamanho2 tamanho2 (Some 0) (int tamanho2 - 7);
                    resultado2 = resultadoOf soma2
                in strictEq resultado2 (parseIntChar (charAt digitos 1)))"

declare consultarReceitaWS_loop.simps [simp del]

declare consultarMinhaReceitaAPI_loop.simps [simp del]


section \<open>Notions used in the statements\<close>

text \<open>
  The votes a run records: one per arrival that carries data, in arrival order, as
  \<open>updateTaxConsensus\<close> pushes them onto \<open>sources\<close>.
\<close>

definition votesOf :: "(api_name \<times> api_data option) list \<Rightarrow> (api_name \<times> regime) list" where
  "votesOf as = map (\<lambda>(a, d). (a, getTaxRegimeFromData d)) (filter (\<lambda>(a, d). d \<noteq> None) as)"

text \<open>The priority order SIMEI > Simples > Normal > Outros, as a number.\<close>

fun rank :: "regime \<Rightarrow> nat" where
  "rank SIMEI = 3"
| "rank Simples = 2"
| "rank Normal = 1"
| "rank Outros = 0"

text \<open>The label the priority chain of \<open>updateTaxConsensus\<close> picks from a list of votes.\<close>

definition priorityLabel :: "regime list \<Rightarrow> regime" where
  "priorityLabel regimes =
     (if SIMEI \<in> set regimes then SIMEI
      else if Simples \<in> set regimes then Simples
      else if Normal \<in> set regimes then Normal
      else Outros)"

text \<open>The consensus object that \<open>updateTaxConsensus\<close> leaves when \<open>sources\<close> is \<open>srcs\<close>.\<close>

definition tally :: "(api_name \<times> regime) list \<Rightarrow> consensus" where
  "tally srcs =
     (let regimes = map snd srcs;
          conf = priorityLabel regimes;
          votesForConfirmed = int (length (filter (\<lambda>r. r = conf) regimes))
      in \<lparr>sources = srcs, confirmed = Some conf,
          needsWarning = (votesForConfirmed \<le> int (length regimes) - votesForConfirmed)\<rparr>)"

definition settled :: "consensus \<Rightarrow> bool" where
  "settled c = (sources c = [] \<or> c = tally (sources c))"

text \<open>Sample provider records.\<close>

definition noData :: api_data where
  "noData =
     \<lparr>status = None, uf = None, cnpj = None, opcao_pelo_mei = None,
      opcao_pelo_simples = None, simei_optante = None, simples_optante = None,
      simples_optant = None, company_simei_optant = None, company_simples_optant = None,
      registrations = []\<rparr>"

definition receitaWsSimei :: api_data where
  "receitaWsSimei = noData\<lparr>status := Some ''OK'', uf := Some ''SP'', simei_optante := Some True\<rparr>"

definition receitaWsSimples :: api_data where
  "receitaWsSimples = noData\<lparr>status := Some ''OK'', uf := Some ''SP'', simples_optante := Some True\<rparr>"

definition cnpjaNormal :: api_data where
  "cnpjaNormal = noData\<lparr>company_simples_optant := Some False, registrations := [''SP 123456789'']\<rparr>"

definition minhaReceitaNormal :: api_data where
  "minhaReceitaNormal = noData\<lparr>cnpj := Some ''11222333000181'', opcao_pelo_simples := Some False\<rparr>"

text \<open>Sample runs: each arrival is a provider with what its adapter resolved to.\<close>

definition oneSimeiTwoNormal :: "(api_name \<times> api_data option) list" where
  "oneSimeiTwoNormal =
     [(CNPJA, Some cnpjaNormal), (MinhaReceita, Some minhaReceitaNormal),
      (ReceitaWS, Some receitaWsSimei)]"

definition tieSimplesNormal :: "(api_name \<times> api_data option) list" where
  "tieSimplesNormal = [(ReceitaWS, Some receitaWsSimples), (CNPJA, Some cnpjaNormal)]"

definition twoNormalOneSimples :: "(api_name \<times> api_data option) list" where
  "twoNormalOneSimples =
     [(CNPJA, Some cnpjaNormal), (MinhaReceita, Some minhaReceitaNormal),
      (ReceitaWS, Some receitaWsSimples)]"

definition singleSimei :: "(api_name \<times> api_data option) list" where
  "singleSimei = [(CNPJA, None), (ReceitaWS, Some receitaWsSimei)]"

definition cnpjaThenReceitaWs :: "(api_name \<times> api_data option) list" where
  "cnpjaThenReceitaWs = [(CNPJA, Some cnpjaNormal), (ReceitaWS, Some receitaWsSimei)]"

definition allThreeFail :: "(api_name \<times> api_data option) list" where
  "allThreeFail = [(MinhaReceita, None), (CNPJA, None), (ReceitaWS, None)]"

definition twoFailOneSuccess :: "(api_name \<times> api_data option) list" where
  "twoFailOneSuccess = [(CNPJA, None), (MinhaReceita, Some minhaReceitaNormal), (ReceitaWS, None)]"

text \<open>The terminal signal of \<open>handleFailure\<close>, and how often a trace carries it.\<close>

definition allSourcesFailed :: ui_event where
  "allSourcesFailed =
     MostrarErro ''Todas as fontes de dados falharam. Tente novamente mais tarde.''"

definition signalCount :: "ui_event list \<Rightarrow> nat" where
  "signalCount evs = length (filter (\<lambda>e. e = allSourcesFailed) evs)"

text \<open>The arrivals that are failures (\<open>null\<close>).\<close>

definition failuresOf :: "(api_name \<times> api_data option) list \<Rightarrow> nat" where
  "failuresOf as = length (filter (\<lambda>x. snd x = None) as)"

text \<open>The calls that build the whole card.\<close>

fun isFullRender :: "ui_event \<Rightarrow> bool" where
  "isFullRender (RenderCardFromCNPJA d c) = True"
| "isFullRender (RenderCardFromMinhaReceita d c) = True"
| "isFullRender (RenderCardFromReceitaWS d c) = True"
| "isFullRender e = False"

text \<open>The notice \<open>handleMinhaReceitaResponse\<close> adds after it renders.\<close>

definition preliminaryNotice :: ui_event where
  "preliminaryNotice =
     AddWarningMessage ''Exibindo dados preliminares. Atualizando com a fonte principal...''"

text \<open>How many fetches and how many delays a trace of an adapter holds.\<close>

definition attempts :: "effect list \<Rightarrow> nat" where
  "attempts tr = length (filter (\<lambda>e. e = Fetch) tr)"

fun isDelay :: "effect \<Rightarrow> bool" where
  "isDelay (Delay ms) = True"
| "isDelay Fetch = False"

definition delays :: "effect list \<Rightarrow> nat" where
  "delays tr = length (filter isDelay tr)"

text \<open>Sample networks: the outcome of each attempt of one adapter.\<close>

definition errorEnvelope :: api_data where
  "errorEnvelope = noData\<lparr>status := Some ''ERROR''\<rparr>"

definition allThrow :: "nat \<Rightarrow> fetch_outcome" where
  "allThrow attempt = Throws"

definition failFailOk :: "nat \<Rightarrow> fetch_outcome" where
  "failFailOk attempt =
     (if attempt = 1 then HttpNotOk 429
      else if attempt = 2 then HttpOk errorEnvelope
      else HttpOk receitaWsSimei)"

definition allThreeKinds :: "nat \<Rightarrow> fetch_outcome" where
  "allThreeKinds attempt =
     (if attempt = 1 then Throws
      else if attempt = 2 then HttpNotOk 500
      else HttpOk errorEnvelope)"

text \<open>
  The check-digit procedure as the specification words it: the digits are weighted with
  5, 4, 3, 2, 9, 8, ..., 2 (the first twelve) and 6, 5, 4, 3, 2, 9, 8, ..., 2 (the first
  thirteen), the sum is reduced modulo 11, and a remainder below 2 gives the digit 0,
  any other remainder \<open>11 - remainder\<close>. \<open>checkDigitsMatch\<close> compares the two results with
  the thirteenth and fourteenth character of a string of 14 digits.
\<close>

definition digitValue :: "char \<Rightarrow> int" where
  "digitValue c = int (of_char c) - 48"

definition weights1 :: "int list" where
  "weights1 = [5, 4, 3, 2, 9, 8, 7, 6, 5, 4, 3, 2]"

definition weights2 :: "int list" where
  "weights2 = [6, 5, 4, 3, 2, 9, 8, 7, 6, 5, 4, 3, 2]"

definition weightedSum :: "int list \<Rightarrow> string \<Rightarrow> int" where
  "weightedSum ws ds = sum_list (map (\<lambda>(w, c). w * digitValue c) (zip ws ds))"

definition mod11Digit :: "int \<Rightarrow> int" where
  "mod11Digit s = (if s mod 11 < 2 then 0 else 11 - s mod 11)"

definition checkDigitsMatch :: "string \<Rightarrow> bool" where
  "checkDigitsMatch ds =
     (mod11Digit (weightedSum weights1 (take 12 ds)) = digitValue (ds ! 12)
      \<and> mod11Digit (weightedSum weights2 (take 13 ds)) = digitValue (ds ! 13))"

section \<open>Consensus: the recorded votes decide the state\<close>


lemma votesOf_Nil [simp]: "votesOf [] = []"
  by (simp add: votesOf_def)

lemma votesOf_Cons_None [simp]: "votesOf ((a, None) # as) = votesOf as"
  by (simp add: votesOf_def)

lemma votesOf_Cons_Some [simp]:
  "votesOf ((a, Some d) # as) = (a, getTaxRegimeFromData (Some d)) # votesOf as"
  by (simp add: votesOf_def)

lemma updateTaxConsensus_consensus:
  "taxRegimeConsensus (updateTaxConsensus a d st) =
     tally (sources (taxRegimeConsensus st) @ [(a, getTaxRegimeFromData d)])"
  by (simp add: updateTaxConsensus_def updateTaxRegimeDisplay_def tally_def priorityLabel_def Let_def)

lemma handleFailure_consensus:
  "taxRegimeConsensus (handleFailure a st) = taxRegimeConsensus st"
  by (simp add: handleFailure_def Let_def)

lemma deliver_consensus:
  "taxRegimeConsensus (deliver (a, data) st) =
     (case data of None \<Rightarrow> taxRegimeConsensus st
      | Some d \<Rightarrow> tally (sources (taxRegimeConsensus st) @ [(a, getTaxRegimeFromData (Some d))]))"
  by (cases a; cases data)
     (simp_all add: handleCnpjaResponse_def handleMinhaReceitaResponse_def
        handleReceitaWsResponse_def handleFailure_consensus updateTaxConsensus_consensus
        Let_def split: option.splits)

lemma sources_tally [simp]: "sources (tally srcs) = srcs"
  by (simp add: tally_def Let_def)

lemma runArrivals_consensus:
  "settled (taxRegimeConsensus st) \<Longrightarrow>
   settled (taxRegimeConsensus (runArrivals as st)) \<and>
   sources (taxRegimeConsensus (runArrivals as st)) = sources (taxRegimeConsensus st) @ votesOf as"
proof (induction as arbitrary: st)
  case Nil
  then show ?case by simp
next
  case (Cons x as)
  obtain a data where x: "x = (a, data)" by (cases x)
  show ?case
  proof (cases data)
    case None
    with x Cons show ?thesis by (simp add: deliver_consensus)
  next
    case (Some d)
    have "settled (taxRegimeConsensus (deliver x st))"
      using x Some by (simp add: deliver_consensus settled_def)
    from Cons.IH[OF this] show ?thesis
      using x Some by (simp add: deliver_consensus)
  qed
qed

lemma run_init_sources:
  "sources (taxRegimeConsensus (runArrivals as initState)) = votesOf as"
proof -
  have s0: "settled (taxRegimeConsensus initState)" by (simp add: settled_def initState_def)
  have src0: "sources (taxRegimeConsensus initState) = []" by (simp add: initState_def)
  show ?thesis using runArrivals_consensus[OF s0, of as] src0 by simp
qed

lemma run_init_consensus:
  assumes ne: "votesOf as \<noteq> []"
  shows "taxRegimeConsensus (runArrivals as initState) = tally (votesOf as)"
proof -
  have s0: "settled (taxRegimeConsensus initState)" by (simp add: settled_def initState_def)
  have a: "settled (taxRegimeConsensus (runArrivals as initState))"
    using runArrivals_consensus[OF s0, of as] by blast
  from a run_init_sources[of as] ne show ?thesis unfolding settled_def by metis
qed

lemma run_init_no_votes:
  assumes "votesOf as = []"
  shows "taxRegimeConsensus (runArrivals as initState) = taxRegimeConsensus initState"
  using assms
proof -
  have "\<And>st. votesOf as = [] \<Longrightarrow> taxRegimeConsensus (runArrivals as st) = taxRegimeConsensus st"
  proof (induction as)
    case Nil
    show ?case by simp
  next
    case (Cons x as)
    obtain a data where x: "x = (a, data)" by (cases x)
    from Cons.prems x have d: "data = None" by (cases data) simp_all
    with Cons.prems x have "votesOf as = []" by simp
    from Cons.IH[OF this] x d show ?case by (simp add: deliver_consensus)
  qed
  with assms show ?thesis by blast
qed

lemma confirmed_tally: "confirmed (tally srcs) = Some (priorityLabel (map snd srcs))"
  by (simp add: tally_def Let_def)

lemma needsWarning_tally:
  "needsWarning (tally srcs) =
     (int (length (filter (\<lambda>r. r = priorityLabel (map snd srcs)) (map snd srcs)))
        \<le> int (length (map snd srcs))
            - int (length (filter (\<lambda>r. r = priorityLabel (map snd srcs)) (map snd srcs))))"
  by (simp add: tally_def Let_def)

lemma priorityLabel_upper: "r \<in> set rs \<Longrightarrow> rank r \<le> rank (priorityLabel rs)"
  by (cases r) (simp_all add: priorityLabel_def)

lemma priorityLabel_member: "rs \<noteq> [] \<Longrightarrow> priorityLabel rs \<in> set rs"
proof -
  assume ne: "rs \<noteq> []"
  then obtain r where r: "r \<in> set rs" by (cases rs) auto
  show ?thesis
  proof (cases "SIMEI \<in> set rs \<or> Simples \<in> set rs \<or> Normal \<in> set rs")
    case True
    then show ?thesis by (auto simp: priorityLabel_def)
  next
    case False
    have "r = Outros" using r False by (metis regime.exhaust)
    with r False show ?thesis by (simp add: priorityLabel_def)
  qed
qed

lemma priorityLabel_SIMEI: "SIMEI \<in> set rs \<Longrightarrow> priorityLabel rs = SIMEI"
  by (simp add: priorityLabel_def)

lemma length_filter_split:
  "length xs = length (filter P xs) + length (filter (\<lambda>x. \<not> P x) xs)"
  by (induction xs) simp_all

text \<open>
  Claim C1. After a run that recorded at least one vote, \<open>sources\<close> holds exactly the
  recorded votes, and \<open>confirmed\<close> is a label that occurs among them and that no
  recorded label outranks in the order SIMEI > Simples > Normal > Outros, however many
  providers voted for lower labels. In particular one SIMEI vote makes \<open>confirmed\<close>
  SIMEI.
\<close>

theorem confirmed_is_highest_priority:
  assumes "votesOf as \<noteq> []"
  shows "sources (taxRegimeConsensus (runArrivals as initState)) = votesOf as
       \<and> (\<exists>l. confirmed (taxRegimeConsensus (runArrivals as initState)) = Some l
              \<and> l \<in> set (map snd (votesOf as))
              \<and> (\<forall>r \<in> set (map snd (votesOf as)). rank r \<le> rank l))
       \<and> (SIMEI \<in> set (map snd (votesOf as))
            \<longrightarrow> confirmed (taxRegimeConsensus (runArrivals as initState)) = Some SIMEI)"
proof -
  let ?rs = "map snd (votesOf as)"
  have c: "confirmed (taxRegimeConsensus (runArrivals as initState)) = Some (priorityLabel ?rs)"
    by (simp add: run_init_consensus[OF assms] confirmed_tally)
  have ne: "?rs \<noteq> []" using assms by simp
  have m: "priorityLabel ?rs \<in> set ?rs" by (rule priorityLabel_member[OF ne])
  have u: "\<forall>r \<in> set ?rs. rank r \<le> rank (priorityLabel ?rs)"
    using priorityLabel_upper by blast
  have s: "SIMEI \<in> set ?rs \<longrightarrow> priorityLabel ?rs = SIMEI"
    using priorityLabel_SIMEI by blast
  from c m u s run_init_sources[of as] show ?thesis by simp
qed

lemma votesOf_oneSimeiTwoNormal:
  "votesOf oneSimeiTwoNormal = [(CNPJA, Normal), (MinhaReceita, Normal), (ReceitaWS, SIMEI)]"
  by (simp add: oneSimeiTwoNormal_def getTaxRegimeFromData_def cnpjaNormal_def
      minhaReceitaNormal_def receitaWsSimei_def noData_def)

theorem confirmed_is_highest_priority_witness:
  "votesOf oneSimeiTwoNormal \<noteq> []
   \<and> map snd (votesOf oneSimeiTwoNormal) = [Normal, Normal, SIMEI]
   \<and> confirmed (taxRegimeConsensus (runArrivals oneSimeiTwoNormal initState)) = Some SIMEI"
  using confirmed_is_highest_priority[of oneSimeiTwoNormal]
  by (simp add: votesOf_oneSimeiTwoNormal)

text \<open>
  Claim C2. After a run that recorded at least one vote, \<open>needsWarning\<close> is true exactly
  when the votes equal to the confirmed label are not strictly more than the other
  votes. Votes Simples, Normal give Simples with the flag set (1 against 1); votes
  Normal, Normal, Simples give Simples with the flag set (1 against 2); a single SIMEI
  vote gives SIMEI with the flag clear (1 against 0).
\<close>

theorem warning_iff_no_strict_majority:
  "(votesOf as \<noteq> [] \<longrightarrow>
      (\<exists>l. confirmed (taxRegimeConsensus (runArrivals as initState)) = Some l
         \<and> needsWarning (taxRegimeConsensus (runArrivals as initState))
           = (\<not> length (filter (\<lambda>r. r \<noteq> l) (map snd (votesOf as)))
                 < length (filter (\<lambda>r. r = l) (map snd (votesOf as))))))
   \<and> (map snd (votesOf as) = [Simples, Normal] \<longrightarrow>
        confirmed (taxRegimeConsensus (runArrivals as initState)) = Some Simples
        \<and> needsWarning (taxRegimeConsensus (runArrivals as initState)))
   \<and> (map snd (votesOf as) = [Normal, Normal, Simples] \<longrightarrow>
        confirmed (taxRegimeConsensus (runArrivals as initState)) = Some Simples
        \<and> needsWarning (taxRegimeConsensus (runArrivals as initState)))
   \<and> (map snd (votesOf as) = [SIMEI] \<longrightarrow>
        confirmed (taxRegimeConsensus (runArrivals as initState)) = Some SIMEI
        \<and> \<not> needsWarning (taxRegimeConsensus (runArrivals as initState)))"
proof -
  let ?rs = "map snd (votesOf as)"
  let ?c = "taxRegimeConsensus (runArrivals as initState)"
  have gen: "votesOf as \<noteq> [] \<Longrightarrow> confirmed ?c = Some (priorityLabel ?rs)
      \<and> needsWarning ?c = (\<not> length (filter (\<lambda>r. r \<noteq> priorityLabel ?rs) ?rs)
                 < length (filter (\<lambda>r. r = priorityLabel ?rs) ?rs))"
  proof -
    assume ne: "votesOf as \<noteq> []"
    have "length ?rs = length (filter (\<lambda>r. r = priorityLabel ?rs) ?rs)
              + length (filter (\<lambda>r. r \<noteq> priorityLabel ?rs) ?rs)"
      by (rule length_filter_split)
    then show ?thesis
      unfolding run_init_consensus[OF ne] confirmed_tally needsWarning_tally by auto
  qed
  have e1: "?rs = [Simples, Normal] \<Longrightarrow> confirmed ?c = Some Simples \<and> needsWarning ?c"
  proof -
    assume a: "?rs = [Simples, Normal]"
    then have ne: "votesOf as \<noteq> []" by auto
    show ?thesis
      unfolding run_init_consensus[OF ne] confirmed_tally needsWarning_tally a
      by (simp add: priorityLabel_def)
  qed
  have e2: "?rs = [Normal, Normal, Simples] \<Longrightarrow> confirmed ?c = Some Simples \<and> needsWarning ?c"
  proof -
    assume a: "?rs = [Normal, Normal, Simples]"
    then have ne: "votesOf as \<noteq> []" by auto
    show ?thesis
      unfolding run_init_consensus[OF ne] confirmed_tally needsWarning_tally a
      by (simp add: priorityLabel_def)
  qed
  have e3: "?rs = [SIMEI] \<Longrightarrow> confirmed ?c = Some SIMEI \<and> \<not> needsWarning ?c"
  proof -
    assume a: "?rs = [SIMEI]"
    then have ne: "votesOf as \<noteq> []" by auto
    show ?thesis
      unfolding run_init_consensus[OF ne] confirmed_tally needsWarning_tally a
      by (simp add: priorityLabel_def)
  qed
  from gen e1 e2 e3 show ?thesis by blast
qed

lemma votesOf_samples:
  "map snd (votesOf tieSimplesNormal) = [Simples, Normal]"
  "map snd (votesOf twoNormalOneSimples) = [Normal, Normal, Simples]"
  "map snd (votesOf singleSimei) = [SIMEI]"
  by (simp_all add: tieSimplesNormal_def twoNormalOneSimples_def singleSimei_def
      getTaxRegimeFromData_def cnpjaNormal_def minhaReceitaNormal_def receitaWsSimei_def
      receitaWsSimples_def noData_def)

theorem warning_iff_no_strict_majority_witness:
  "votesOf tieSimplesNormal \<noteq> []
   \<and> map snd (votesOf tieSimplesNormal) = [Simples, Normal]
   \<and> confirmed (taxRegimeConsensus (runArrivals tieSimplesNormal initState)) = Some Simples
   \<and> needsWarning (taxRegimeConsensus (runArrivals tieSimplesNormal initState))
   \<and> map snd (votesOf twoNormalOneSimples) = [Normal, Normal, Simples]
   \<and> confirmed (taxRegimeConsensus (runArrivals twoNormalOneSimples initState)) = Some Simples
   \<and> needsWarning (taxRegimeConsensus (runArrivals twoNormalOneSimples initState))
   \<and> map snd (votesOf singleSimei) = [SIMEI]
   \<and> confirmed (taxRegimeConsensus (runArrivals singleSimei initState)) = Some SIMEI
   \<and> \<not> needsWarning (taxRegimeConsensus (runArrivals singleSimei initState))"
proof -
  have ne: "votesOf tieSimplesNormal \<noteq> []"
    using votesOf_samples(1) by auto
  show ?thesis
    using ne warning_iff_no_strict_majority[of tieSimplesNormal]
      warning_iff_no_strict_majority[of twoNormalOneSimples]
      warning_iff_no_strict_majority[of singleSimei]
    by (simp add: votesOf_samples)
qed


lemma mset_votesOf: "mset as = mset bs \<Longrightarrow> mset (votesOf as) = mset (votesOf bs)"
proof -
  assume a: "mset as = mset bs"
  have "mset (filter (\<lambda>(a, d). d \<noteq> None) as) = mset (filter (\<lambda>(a, d). d \<noteq> None) bs)"
    by (simp only: mset_filter a)
  then have "image_mset (\<lambda>(a, d). (a, getTaxRegimeFromData d)) (mset (filter (\<lambda>(a, d). d \<noteq> None) as))
     = image_mset (\<lambda>(a, d). (a, getTaxRegimeFromData d)) (mset (filter (\<lambda>(a, d). d \<noteq> None) bs))"
    by (rule arg_cong)
  then show ?thesis unfolding votesOf_def by (simp only: mset_map)
qed

lemma tally_mset:
  assumes "mset srcs = mset srcs'"
  shows "confirmed (tally srcs) = confirmed (tally srcs')
       \<and> needsWarning (tally srcs) = needsWarning (tally srcs')"
proof -
  have m: "mset (map snd srcs) = mset (map snd srcs')"
    using arg_cong[OF assms, of "image_mset snd"] by (simp only: mset_map)
  have s: "set (map snd srcs) = set (map snd srcs')"
    using m by (rule mset_eq_setD)
  have p: "priorityLabel (map snd srcs) = priorityLabel (map snd srcs')"
    using s by (simp add: priorityLabel_def)
  have l: "length (map snd srcs) = length (map snd srcs')"
    using m by (rule mset_eq_length)
  have f: "length (filter (\<lambda>r. r = priorityLabel (map snd srcs')) (map snd srcs))
         = length (filter (\<lambda>r. r = priorityLabel (map snd srcs')) (map snd srcs'))"
    using arg_cong[OF m, of "\<lambda>M. size (filter_mset (\<lambda>r. r = priorityLabel (map snd srcs')) M)"]
    by (simp only: mset_filter[symmetric] size_mset)
  show ?thesis
    unfolding confirmed_tally needsWarning_tally p using l f by simp
qed

text \<open>
  Claim C10. Two runs whose arrivals are permutations of each other end with the same
  confirmed label and the same warning flag: both depend only on which votes were
  recorded and how often, not on their order.
\<close>

theorem consensus_order_independent:
  assumes "mset as = mset bs"
  shows "confirmed (taxRegimeConsensus (runArrivals as initState))
           = confirmed (taxRegimeConsensus (runArrivals bs initState))
       \<and> needsWarning (taxRegimeConsensus (runArrivals as initState))
           = needsWarning (taxRegimeConsensus (runArrivals bs initState))"
proof (cases "votesOf as = []")
  case True
  have "mset (votesOf bs) = mset []" using mset_votesOf[OF assms] True by simp
  then have b: "votesOf bs = []" by simp
  show ?thesis by (simp add: run_init_no_votes[OF True] run_init_no_votes[OF b])
next
  case False
  have b: "votesOf bs \<noteq> []"
  proof
    assume "votesOf bs = []"
    then have "mset (votesOf as) = {#}" using mset_votesOf[OF assms] by simp
    then show False using False by simp
  qed
  show ?thesis
    unfolding run_init_consensus[OF False] run_init_consensus[OF b]
    by (rule tally_mset[OF mset_votesOf[OF assms]])
qed

theorem consensus_order_independent_witness:
  "mset oneSimeiTwoNormal = mset (rev oneSimeiTwoNormal)
   \<and> rev oneSimeiTwoNormal \<noteq> oneSimeiTwoNormal
   \<and> confirmed (taxRegimeConsensus (runArrivals (rev oneSimeiTwoNormal) initState)) = Some SIMEI
   \<and> needsWarning (taxRegimeConsensus (runArrivals (rev oneSimeiTwoNormal) initState))"
proof -
  have m: "mset oneSimeiTwoNormal = mset (rev oneSimeiTwoNormal)" by simp
  have d: "rev oneSimeiTwoNormal \<noteq> oneSimeiTwoNormal"
    by (simp add: oneSimeiTwoNormal_def cnpjaNormal_def receitaWsSimei_def noData_def)
  have ne: "votesOf oneSimeiTwoNormal \<noteq> []" by (simp add: votesOf_oneSimeiTwoNormal)
  have c: "confirmed (taxRegimeConsensus (runArrivals oneSimeiTwoNormal initState)) = Some SIMEI"
    by (simp add: run_init_consensus[OF ne] confirmed_tally votesOf_oneSimeiTwoNormal priorityLabel_def)
  have w: "needsWarning (taxRegimeConsensus (runArrivals oneSimeiTwoNormal initState))"
    by (simp add: run_init_consensus[OF ne] needsWarning_tally votesOf_oneSimeiTwoNormal priorityLabel_def)
  from consensus_order_independent[OF m] c w m d show ?thesis by simp
qed

text \<open>
  Claim C3, as stated, fails on the code. With no vote \<open>confirmed\<close> is \<open>null\<close>, not the
  label Outros; a record without regime fields is recorded as an Outros vote, so Outros is
  confirmed with one vote recorded; and such a vote counts as dissent: next to one
  Simples vote it sets the warning flag, which one Simples vote alone leaves clear.
\<close>

theorem default_label_counterexample:
  "confirmed (taxRegimeConsensus (runArrivals [] initState)) \<noteq> Some Outros
   \<and> votesOf [(CNPJA, Some noData)] = [(CNPJA, Outros)]
   \<and> confirmed (taxRegimeConsensus (runArrivals [(CNPJA, Some noData)] initState)) = Some Outros
   \<and> map snd (votesOf [(ReceitaWS, Some receitaWsSimples), (CNPJA, Some noData)]) = [Simples, Outros]
   \<and> needsWarning (taxRegimeConsensus
        (runArrivals [(ReceitaWS, Some receitaWsSimples), (CNPJA, Some noData)] initState))
   \<and> \<not> needsWarning (taxRegimeConsensus
        (runArrivals [(ReceitaWS, Some receitaWsSimples)] initState))"
proof -
  have z: "confirmed (taxRegimeConsensus (runArrivals [] initState)) \<noteq> Some Outros"
    by (simp add: initState_def)
  have v1: "votesOf [(CNPJA, Some noData)] = [(CNPJA, Outros)]"
    by (simp add: getTaxRegimeFromData_def noData_def)
  have v2: "votesOf [(ReceitaWS, Some receitaWsSimples), (CNPJA, Some noData)]
      = [(ReceitaWS, Simples), (CNPJA, Outros)]"
    by (simp add: getTaxRegimeFromData_def receitaWsSimples_def noData_def)
  have v3: "votesOf [(ReceitaWS, Some receitaWsSimples)] = [(ReceitaWS, Simples)]"
    by (simp add: getTaxRegimeFromData_def receitaWsSimples_def noData_def)
  have n1: "votesOf [(CNPJA, Some noData)] \<noteq> []" by (simp only: v1) simp
  have n2: "votesOf [(ReceitaWS, Some receitaWsSimples), (CNPJA, Some noData)] \<noteq> []"
    by (simp only: v2) simp
  have n3: "votesOf [(ReceitaWS, Some receitaWsSimples)] \<noteq> []" by (simp only: v3) simp
  have c1: "confirmed (taxRegimeConsensus (runArrivals [(CNPJA, Some noData)] initState))
      = Some Outros"
    unfolding run_init_consensus[OF n1] confirmed_tally v1 by (simp add: priorityLabel_def)
  have c2: "needsWarning (taxRegimeConsensus
        (runArrivals [(ReceitaWS, Some receitaWsSimples), (CNPJA, Some noData)] initState))"
    unfolding run_init_consensus[OF n2] needsWarning_tally v2 by (simp add: priorityLabel_def)
  have c3: "\<not> needsWarning (taxRegimeConsensus
        (runArrivals [(ReceitaWS, Some receitaWsSimples)] initState))"
    unfolding run_init_consensus[OF n3] needsWarning_tally v3 by (simp add: priorityLabel_def)
  have m2: "map snd (votesOf [(ReceitaWS, Some receitaWsSimples), (CNPJA, Some noData)])
      = [Simples, Outros]"
    by (simp only: v2) simp
  from z v1 m2 c1 c2 c3 show ?thesis by blast
qed

lemma length_votesOf: "length (votesOf as) = length (filter (\<lambda>x. snd x \<noteq> None) as)"
  by (simp add: votesOf_def case_prod_unfold)

text \<open>
  Claim C3, amended. While no vote is recorded, \<open>confirmed\<close> is \<open>null\<close> and
  \<open>needsWarning\<close> is false, and \<open>getTaxRegimeInfo\<close> shows that state exactly as it shows
  Outros without warning: the text \<open>Trib: Outros\<close>. Once a vote is recorded \<open>confirmed\<close>
  is a label, so that fallback of the display applies to the zero-vote case only. The
  recorded votes are those of the arrivals that carry data, one each: a provider that
  failed or has not answered adds nothing to either side of the agreement count. A
  record without regime fields that does arrive is recorded as an Outros vote.
\<close>

theorem zero_votes_default_display:
  "(votesOf as = [] \<longrightarrow>
      confirmed (taxRegimeConsensus (runArrivals as initState)) = None
      \<and> \<not> needsWarning (taxRegimeConsensus (runArrivals as initState))
      \<and> getTaxRegimeInfo (taxRegimeConsensus (runArrivals as initState))
          = (''Trib: Outros'', ''tax-regime-bar'')
      \<and> getTaxRegimeInfo (taxRegimeConsensus (runArrivals as initState))
          = getTaxRegimeInfo \<lparr>sources = [], confirmed = Some Outros, needsWarning = False\<rparr>)
   \<and> (votesOf as \<noteq> [] \<longrightarrow>
        (\<exists>l. confirmed (taxRegimeConsensus (runArrivals as initState)) = Some l))
   \<and> sources (taxRegimeConsensus (runArrivals as initState)) = votesOf as
   \<and> length (votesOf as) = length (filter (\<lambda>x. snd x \<noteq> None) as)
   \<and> votesOf [(a, Some noData)] = [(a, Outros)]"
proof -
  have z: "votesOf as = [] \<Longrightarrow> taxRegimeConsensus (runArrivals as initState)
      = \<lparr>sources = [], confirmed = None, needsWarning = False\<rparr>"
  proof -
    assume e: "votesOf as = []"
    have i: "taxRegimeConsensus initState = \<lparr>sources = [], confirmed = None, needsWarning = False\<rparr>"
      by (simp add: initState_def)
    show ?thesis by (simp only: run_init_no_votes[OF e] i)
  qed
  have g0: "getTaxRegimeInfo \<lparr>sources = [], confirmed = None, needsWarning = False\<rparr>
      = (''Trib: Outros'', ''tax-regime-bar'')"
    by (simp add: getTaxRegimeInfo_def)
  have g1: "getTaxRegimeInfo \<lparr>sources = [], confirmed = Some Outros, needsWarning = False\<rparr>
      = (''Trib: Outros'', ''tax-regime-bar'')"
    by (simp add: getTaxRegimeInfo_def regimeMap_def)
  have n: "votesOf as \<noteq> [] \<Longrightarrow>
      \<exists>l. confirmed (taxRegimeConsensus (runArrivals as initState)) = Some l"
    by (simp add: run_init_consensus confirmed_tally)
  have o: "votesOf [(a, Some noData)] = [(a, Outros)]"
    by (simp add: getTaxRegimeFromData_def noData_def)
  from z g0 g1 n run_init_sources[of as] length_votesOf[of as] o show ?thesis
    by (cases "votesOf as = []") simp_all
qed

theorem zero_votes_default_display_witness:
  "votesOf [(CNPJA, None)] = []
   \<and> confirmed (taxRegimeConsensus (runArrivals [(CNPJA, None)] initState)) = None
   \<and> getTaxRegimeInfo (taxRegimeConsensus (runArrivals [(CNPJA, None)] initState))
       = (''Trib: Outros'', ''tax-regime-bar'')
   \<and> votesOf singleSimei \<noteq> []
   \<and> (\<exists>l. confirmed (taxRegimeConsensus (runArrivals singleSimei initState)) = Some l)"
proof -
  have a: "votesOf [(CNPJA, None)] = []" by simp
  have b: "votesOf singleSimei \<noteq> []" using votesOf_samples(3) by auto
  from a b zero_votes_default_display[of "[(CNPJA, None)]"]
    zero_votes_default_display[of singleSimei]
  show ?thesis by blast
qed


section \<open>Orchestrator: what each handler appends\<close>

lemma runArrivals_append:
  "runArrivals (as @ bs) st = runArrivals bs (runArrivals as st)"
  by (induction as arbitrary: st) simp_all

lemma updateTaxConsensus_fields:
  "receitaWsDataCache (updateTaxConsensus a d st) = receitaWsDataCache st"
  "cnpjaDataCache (updateTaxConsensus a d st) = cnpjaDataCache st"
  "minhaReceitaDataCache (updateTaxConsensus a d st) = minhaReceitaDataCache st"
  "hasRendered (updateTaxConsensus a d st) = hasRendered st"
  "failedApiCount (updateTaxConsensus a d st) = failedApiCount st"
  "loadingDisplay (updateTaxConsensus a d st) = loadingDisplay st"
  "cardOnScreen (updateTaxConsensus a d st) = cardOnScreen st"
  by (simp_all add: updateTaxConsensus_def updateTaxRegimeDisplay_def Let_def)

lemma updateTaxConsensus_events:
  "events (updateTaxConsensus a d st) =
     events st @
       (if hasRendered st \<and> cardOnScreen st
        then [TaxRegimeDisplay (fst (getTaxRegimeInfo (taxRegimeConsensus (updateTaxConsensus a d st))))]
        else [])"
  by (simp add: updateTaxConsensus_def updateTaxRegimeDisplay_def Let_def)

lemma handleReceitaWs_success:
  "events (handleReceitaWsResponse (Some d) st) =
     events st @
       (if cardOnScreen st
        then [TaxRegimeDisplay (fst (getTaxRegimeInfo (taxRegimeConsensus (handleReceitaWsResponse (Some d) st))))]
        else []) @
       [RenderCardFromReceitaWS d (taxRegimeConsensus (handleReceitaWsResponse (Some d) st)),
        UpdateCardWithIEData (cnpjaDataCache st) (uf d)]"
  "hasRendered (handleReceitaWsResponse (Some d) st)"
  "cardOnScreen (handleReceitaWsResponse (Some d) st)"
  "receitaWsDataCache (handleReceitaWsResponse (Some d) st) = Some d"
  "cnpjaDataCache (handleReceitaWsResponse (Some d) st) = cnpjaDataCache st"
  "failedApiCount (handleReceitaWsResponse (Some d) st) = failedApiCount st"
  by (simp_all add: handleReceitaWsResponse_def Let_def updateTaxConsensus_fields
      updateTaxConsensus_events updateTaxConsensus_consensus)

lemma handleCnpja_success:
  "events (handleCnpjaResponse (Some d) st) =
     events st @
       (if hasRendered st \<and> cardOnScreen st
        then [TaxRegimeDisplay (fst (getTaxRegimeInfo (taxRegimeConsensus (handleCnpjaResponse (Some d) st))))]
        else []) @
       (case receitaWsDataCache st of
          Some r \<Rightarrow> [UpdateCardWithIEData (Some d) (uf r)]
        | None \<Rightarrow>
            if hasRendered st then []
            else [RenderCardFromCNPJA d (taxRegimeConsensus (handleCnpjaResponse (Some d) st))])"
  "cnpjaDataCache (handleCnpjaResponse (Some d) st) = Some d"
  "receitaWsDataCache (handleCnpjaResponse (Some d) st) = receitaWsDataCache st"
  "failedApiCount (handleCnpjaResponse (Some d) st) = failedApiCount st"
  by (simp_all add: handleCnpjaResponse_def Let_def updateTaxConsensus_fields
      updateTaxConsensus_events updateTaxConsensus_consensus split: option.splits)

lemma handleMinhaReceita_success:
  "events (handleMinhaReceitaResponse (Some d) st) =
     events st @
       (if hasRendered st \<and> cardOnScreen st
        then [TaxRegimeDisplay (fst (getTaxRegimeInfo (taxRegimeConsensus (handleMinhaReceitaResponse (Some d) st))))]
        else []) @
       (if receitaWsDataCache st = None \<and> \<not> hasRendered st
        then [RenderCardFromMinhaReceita d (taxRegimeConsensus (handleMinhaReceitaResponse (Some d) st)),
              preliminaryNotice]
        else [])"
  "cnpjaDataCache (handleMinhaReceitaResponse (Some d) st) = cnpjaDataCache st"
  "receitaWsDataCache (handleMinhaReceitaResponse (Some d) st) = receitaWsDataCache st"
  "failedApiCount (handleMinhaReceitaResponse (Some d) st) = failedApiCount st"
  by (simp_all add: handleMinhaReceitaResponse_def Let_def updateTaxConsensus_fields
      updateTaxConsensus_events updateTaxConsensus_consensus preliminaryNotice_def)

lemma handleFailure_fields:
  "events (handleFailure a st) =
     events st @ (if failedApiCount st + 1 = TOTAL_APIS then [allSourcesFailed] else [])"
  "failedApiCount (handleFailure a st) = failedApiCount st + 1"
  "cnpjaDataCache (handleFailure a st) = cnpjaDataCache st"
  "receitaWsDataCache (handleFailure a st) = receitaWsDataCache st"
  "hasRendered (handleFailure a st) = hasRendered st"
  "cardOnScreen (handleFailure a st) = (cardOnScreen st \<and> failedApiCount st + 1 \<noteq> TOTAL_APIS)"
  by (simp_all add: handleFailure_def Let_def allSourcesFailed_def)

lemma deliver_failure:
  "deliver (a, None) st = handleFailure a st"
  by (cases a) (simp_all add: handleCnpjaResponse_def handleMinhaReceitaResponse_def
      handleReceitaWsResponse_def)

lemma deliver_success_signal:
  "signalCount (events (deliver (a, Some d) st)) = signalCount (events st)"
  "failedApiCount (deliver (a, Some d) st) = failedApiCount st"
  by (cases a; simp add: handleReceitaWs_success handleCnpja_success handleMinhaReceita_success
      signalCount_def allSourcesFailed_def preliminaryNotice_def split: option.splits)+

lemma deliver_failure_signal:
  "signalCount (events (deliver (a, None) st)) =
     signalCount (events st) + (if failedApiCount st + 1 = TOTAL_APIS then 1 else 0)"
  "failedApiCount (deliver (a, None) st) = failedApiCount st + 1"
  by (simp_all add: deliver_failure handleFailure_fields signalCount_def)

lemma failuresOf_simps [simp]:
  "failuresOf [] = 0"
  "failuresOf ((a, None) # as) = Suc (failuresOf as)"
  "failuresOf ((a, Some d) # as) = failuresOf as"
  by (simp_all add: failuresOf_def)

lemma runArrivals_signal:
  "failedApiCount (runArrivals as st) = failedApiCount st + failuresOf as
   \<and> signalCount (events (runArrivals as st)) =
       signalCount (events st) +
         (if failedApiCount st < TOTAL_APIS \<and> TOTAL_APIS \<le> failedApiCount st + failuresOf as
          then 1 else 0)"
proof (induction as arbitrary: st)
  case Nil
  show ?case by simp
next
  case (Cons x as)
  obtain a data where x: "x = (a, data)" by (cases x)
  show ?case
  proof (cases data)
    case None
    show ?thesis
      using Cons.IH[of "deliver (a, None) st"] x None
      by (simp add: deliver_failure_signal TOTAL_APIS_def)
  next
    case (Some d)
    show ?thesis
      using Cons.IH[of "deliver (a, Some d) st"] x Some
      by (simp add: deliver_success_signal)
  qed
qed

lemma failuresOf_mset:
  assumes m: "mset as = mset bs"
  shows "failuresOf as = failuresOf bs"
  unfolding failuresOf_def
  using arg_cong[OF m, of "\<lambda>M. size (filter_mset (\<lambda>x. snd x = None) M)"]
  by (simp only: mset_filter[symmetric] size_mset)

lemma run_init_signalCount:
  "signalCount (events (runArrivals as initState)) = (if 3 \<le> failuresOf as then 1 else 0)"
proof -
  have f: "failedApiCount initState = 0" by (simp add: initState_def)
  have e: "signalCount (events initState) = 0" by (simp add: initState_def signalCount_def)
  show ?thesis
    using runArrivals_signal[of as initState] by (simp only: f e TOTAL_APIS_def) simp
qed

text \<open>
  Claim C6. The all-sources-failed signal is emitted once when three failures have
  arrived and not at all when fewer have: the number of signals in a run depends on the
  number of failures only. So every order of the three failures emits it exactly once.
\<close>

theorem all_failed_signalled_once:
  "signalCount (events (runArrivals as initState)) = (if 3 \<le> failuresOf as then 1 else 0)
   \<and> (mset as = mset allThreeFail \<longrightarrow> signalCount (events (runArrivals as initState)) = 1)
   \<and> (failuresOf as < 3 \<longrightarrow> signalCount (events (runArrivals as initState)) = 0)"
proof -
  have t: "failuresOf allThreeFail = 3" by (simp add: allThreeFail_def)
  have p: "mset as = mset allThreeFail \<Longrightarrow> failuresOf as = 3"
    using failuresOf_mset[of as allThreeFail] t by simp
  show ?thesis using p by (simp add: run_init_signalCount)
qed

theorem all_failed_signalled_once_witness:
  "mset [(ReceitaWS, None), (MinhaReceita, None), (CNPJA, None)] = mset allThreeFail
   \<and> signalCount (events (runArrivals [(ReceitaWS, None), (MinhaReceita, None), (CNPJA, None)]
         initState)) = 1
   \<and> signalCount (events (runArrivals allThreeFail initState)) = 1
   \<and> failuresOf twoFailOneSuccess < 3
   \<and> signalCount (events (runArrivals twoFailOneSuccess initState)) = 0"
proof -
  have m: "mset [(ReceitaWS, None), (MinhaReceita, None), (CNPJA, None)] = mset allThreeFail"
    by (simp add: allThreeFail_def)
  have f: "failuresOf twoFailOneSuccess < 3" by (simp add: twoFailOneSuccess_def)
  from m f all_failed_signalled_once[of "[(ReceitaWS, None), (MinhaReceita, None), (CNPJA, None)]"]
    all_failed_signalled_once[of allThreeFail] all_failed_signalled_once[of twoFailOneSuccess]
  show ?thesis by simp
qed

section \<open>Orchestrator: the authoritative provider\<close>

lemma deliver_keeps_cnpjaCache:
  "a \<noteq> CNPJA \<Longrightarrow> cnpjaDataCache (deliver (a, data) st) = cnpjaDataCache st"
proof (cases data)
  case None
  then show ?thesis by (simp only: deliver_failure handleFailure_fields)
next
  case (Some d)
  assume "a \<noteq> CNPJA"
  with Some show ?thesis
    by (cases a) (simp_all add: handleReceitaWs_success handleMinhaReceita_success)
qed

lemma runArrivals_keeps_cnpjaCache:
  "CNPJA \<notin> fst ` set as \<Longrightarrow> cnpjaDataCache (runArrivals as st) = cnpjaDataCache st"
proof (induction as arbitrary: st)
  case Nil
  show ?case by simp
next
  case (Cons x as)
  obtain a data where x: "x = (a, data)" by (cases x)
  from Cons.prems x have a: "a \<noteq> CNPJA" and r: "CNPJA \<notin> fst ` set as" by auto
  show ?case using Cons.IH[OF r, of "deliver x st"] x deliver_keeps_cnpjaCache[OF a, of data st]
    by simp
qed

lemma cnpja_success_page:
  "hasRendered (handleCnpjaResponse (Some d) st) = (hasRendered st \<or> receitaWsDataCache st = None)"
  "cardOnScreen (handleCnpjaResponse (Some d) st)
     = (cardOnScreen st \<or> (receitaWsDataCache st = None \<and> \<not> hasRendered st))"
  by (auto simp: handleCnpjaResponse_def Let_def updateTaxConsensus_fields split: option.splits)

lemma minhaReceita_success_page:
  "hasRendered (handleMinhaReceitaResponse (Some d) st)
     = (hasRendered st \<or> receitaWsDataCache st = None)"
  "cardOnScreen (handleMinhaReceitaResponse (Some d) st)
     = (cardOnScreen st \<or> (receitaWsDataCache st = None \<and> \<not> hasRendered st))"
  by (auto simp: handleMinhaReceitaResponse_def Let_def updateTaxConsensus_fields)

lemma deliver_success_page:
  "hasRendered (deliver (a, Some d) st)
     = (hasRendered st \<or> a = ReceitaWS \<or> receitaWsDataCache st = None)"
  "cardOnScreen (deliver (a, Some d) st)
     = (cardOnScreen st \<or> a = ReceitaWS \<or> (receitaWsDataCache st = None \<and> \<not> hasRendered st))"
  "receitaWsDataCache (deliver (a, Some d) st)
     = (if a = ReceitaWS then Some d else receitaWsDataCache st)"
  by (cases a, simp_all add: cnpja_success_page minhaReceita_success_page
      handleReceitaWs_success handleCnpja_success handleMinhaReceita_success)+

lemma deliver_failure_page:
  "hasRendered (deliver (a, None) st) = hasRendered st"
  "cardOnScreen (deliver (a, None) st) = (cardOnScreen st \<and> failedApiCount st + 1 \<noteq> 3)"
  "receitaWsDataCache (deliver (a, None) st) = receitaWsDataCache st"
  by (simp_all add: deliver_failure handleFailure_fields TOTAL_APIS_def)

lemma runArrivals_page:
  assumes "receitaWsDataCache st \<noteq> None \<longrightarrow> hasRendered st"
    and "failedApiCount st < 3 \<longrightarrow> cardOnScreen st = hasRendered st"
  shows "(receitaWsDataCache (runArrivals as st) \<noteq> None \<longrightarrow> hasRendered (runArrivals as st))
       \<and> (failedApiCount (runArrivals as st) < 3 \<longrightarrow>
            cardOnScreen (runArrivals as st) = hasRendered (runArrivals as st))
       \<and> (hasRendered st \<or> votesOf as \<noteq> [] \<longrightarrow> hasRendered (runArrivals as st))"
  using assms
proof (induction as arbitrary: st)
  case Nil
  then show ?case by simp
next
  case (Cons x as)
  obtain a data where x: "x = (a, data)" by (cases x)
  show ?case
  proof (cases data)
    case None
    have i1: "receitaWsDataCache (deliver (a, None) st) \<noteq> None
        \<longrightarrow> hasRendered (deliver (a, None) st)"
      using Cons.prems(1) by (simp add: deliver_failure_page)
    have i2: "failedApiCount (deliver (a, None) st) < 3 \<longrightarrow>
        cardOnScreen (deliver (a, None) st) = hasRendered (deliver (a, None) st)"
      using Cons.prems(2) by (simp add: deliver_failure_page deliver_failure_signal)
    from Cons.IH[OF i1 i2] x None show ?thesis
      by (simp add: deliver_failure_page)
  next
    case (Some d)
    have i1: "receitaWsDataCache (deliver (a, Some d) st) \<noteq> None
        \<longrightarrow> hasRendered (deliver (a, Some d) st)"
      using Cons.prems(1) by (simp add: deliver_success_page)
    have i2: "failedApiCount (deliver (a, Some d) st) < 3 \<longrightarrow>
        cardOnScreen (deliver (a, Some d) st) = hasRendered (deliver (a, Some d) st)"
      using Cons.prems by (auto simp: deliver_success_page deliver_success_signal)
    have h: "hasRendered (deliver (a, Some d) st)"
      using Cons.prems(1) by (auto simp: deliver_success_page)
    from Cons.IH[OF i1 i2] x Some h show ?thesis by simp
  qed
qed

lemma run_init_card:
  assumes "votesOf pre \<noteq> []" and "failuresOf pre < 3"
  shows "hasRendered (runArrivals pre initState) \<and> cardOnScreen (runArrivals pre initState)"
proof -
  have i: "receitaWsDataCache initState = None" "failedApiCount initState = 0"
    "cardOnScreen initState = hasRendered initState"
    by (simp_all add: initState_def)
  have f: "failedApiCount (runArrivals pre initState) = failuresOf pre"
    using runArrivals_signal[of pre initState] i(2) by simp
  from runArrivals_page[of initState pre] i assms f show ?thesis by simp
qed

text \<open>
  Claim C4. Whatever arrived before, a successful ReceitaWS arrival renders the whole
  card from its own record (\<open>renderCardFromReceitaWS\<close>) and then calls
  \<open>updateCardWithIEData\<close> with the cached CNPJ.A record and the \<open>uf\<close> of the ReceitaWS
  record; if a card is on screen, its tax label is refreshed first. When a provider
  succeeded earlier and fewer than three failed, a card is on screen, so the render is a
  second one that replaces it. The cache holds the record of the last CNPJ.A success among
  the earlier arrivals. This covers every order in which a secondary provider rendered
  first.
\<close>

theorem authoritative_success_rerenders:
  "events (runArrivals (pre @ [(ReceitaWS, Some d)]) initState) =
     events (runArrivals pre initState) @
       (if cardOnScreen (runArrivals pre initState)
        then [TaxRegimeDisplay
                (fst (getTaxRegimeInfo
                   (taxRegimeConsensus (runArrivals (pre @ [(ReceitaWS, Some d)]) initState))))]
        else []) @
       [RenderCardFromReceitaWS d
          (taxRegimeConsensus (runArrivals (pre @ [(ReceitaWS, Some d)]) initState)),
        UpdateCardWithIEData (cnpjaDataCache (runArrivals pre initState)) (uf d)]
   \<and> hasRendered (runArrivals (pre @ [(ReceitaWS, Some d)]) initState)
   \<and> cardOnScreen (runArrivals (pre @ [(ReceitaWS, Some d)]) initState)
   \<and> receitaWsDataCache (runArrivals (pre @ [(ReceitaWS, Some d)]) initState) = Some d
   \<and> (votesOf pre \<noteq> [] \<and> failuresOf pre < 3 \<longrightarrow>
        hasRendered (runArrivals pre initState) \<and> cardOnScreen (runArrivals pre initState))
   \<and> (pre = pre1 @ (CNPJA, Some c) # pre2 \<and> CNPJA \<notin> fst ` set pre2 \<longrightarrow>
        cnpjaDataCache (runArrivals pre initState) = Some c)"
proof -
  have r: "runArrivals (pre @ [(ReceitaWS, Some d)]) initState
      = handleReceitaWsResponse (Some d) (runArrivals pre initState)"
    by (simp add: runArrivals_append)
  have c: "pre = pre1 @ (CNPJA, Some c) # pre2 \<and> CNPJA \<notin> fst ` set pre2 \<Longrightarrow>
        cnpjaDataCache (runArrivals pre initState) = Some c"
  proof -
    assume a: "pre = pre1 @ (CNPJA, Some c) # pre2 \<and> CNPJA \<notin> fst ` set pre2"
    then have "runArrivals pre initState
        = runArrivals pre2 (handleCnpjaResponse (Some c) (runArrivals pre1 initState))"
      by (simp add: runArrivals_append)
    then show ?thesis using a runArrivals_keeps_cnpjaCache[of pre2]
      by (simp add: handleCnpja_success)
  qed
  have k: "votesOf pre \<noteq> [] \<and> failuresOf pre < 3 \<Longrightarrow>
        hasRendered (runArrivals pre initState) \<and> cardOnScreen (runArrivals pre initState)"
    using run_init_card[of pre] by blast
  show ?thesis unfolding r using c k by (simp add: handleReceitaWs_success)
qed

lemma run_single_cnpja:
  "events (runArrivals [(CNPJA, Some cnpjaNormal)] initState) =
     [RenderCardFromCNPJA cnpjaNormal
        \<lparr>sources = [(CNPJA, Normal)], confirmed = Some Normal, needsWarning = False\<rparr>]"
proof -
  have v: "getTaxRegimeFromData (Some cnpjaNormal) = Normal"
    by (simp add: getTaxRegimeFromData_def cnpjaNormal_def noData_def)
  have i: "events initState = []" "\<not> hasRendered initState"
    "receitaWsDataCache initState = None" "sources (taxRegimeConsensus initState) = []"
    by (simp_all add: initState_def)
  have t: "tally [(CNPJA, Normal)]
      = \<lparr>sources = [(CNPJA, Normal)], confirmed = Some Normal, needsWarning = False\<rparr>"
    by (simp add: tally_def priorityLabel_def Let_def)
  have c: "taxRegimeConsensus (handleCnpjaResponse (Some cnpjaNormal) initState)
      = tally [(CNPJA, Normal)]"
    using deliver_consensus[of CNPJA "Some cnpjaNormal" initState] by (simp add: i v)
  show ?thesis by (simp add: handleCnpja_success i c t)
qed

lemma run_single_minhaReceita:
  "events (runArrivals [(MinhaReceita, Some minhaReceitaNormal)] initState) =
     [RenderCardFromMinhaReceita minhaReceitaNormal
        \<lparr>sources = [(MinhaReceita, Normal)], confirmed = Some Normal, needsWarning = False\<rparr>,
      preliminaryNotice]"
proof -
  have v: "getTaxRegimeFromData (Some minhaReceitaNormal) = Normal"
    by (simp add: getTaxRegimeFromData_def minhaReceitaNormal_def noData_def)
  have i: "events initState = []" "\<not> hasRendered initState"
    "receitaWsDataCache initState = None" "sources (taxRegimeConsensus initState) = []"
    by (simp_all add: initState_def)
  have t: "tally [(MinhaReceita, Normal)]
      = \<lparr>sources = [(MinhaReceita, Normal)], confirmed = Some Normal, needsWarning = False\<rparr>"
    by (simp add: tally_def priorityLabel_def Let_def)
  have c: "taxRegimeConsensus (handleMinhaReceitaResponse (Some minhaReceitaNormal) initState)
      = tally [(MinhaReceita, Normal)]"
    using deliver_consensus[of MinhaReceita "Some minhaReceitaNormal" initState] by (simp add: i v)
  show ?thesis by (simp add: handleMinhaReceita_success i c t)
qed

theorem authoritative_success_rerenders_witness:
  "votesOf [(CNPJA, Some cnpjaNormal)] \<noteq> [] \<and> failuresOf [(CNPJA, Some cnpjaNormal)] < 3
   \<and> cardOnScreen (runArrivals [(CNPJA, Some cnpjaNormal)] initState)
   \<and> events (runArrivals cnpjaThenReceitaWs initState) =
     [RenderCardFromCNPJA cnpjaNormal
        \<lparr>sources = [(CNPJA, Normal)], confirmed = Some Normal, needsWarning = False\<rparr>,
      TaxRegimeDisplay (''S I M E I'' @ warningIcon),
      RenderCardFromReceitaWS receitaWsSimei
        \<lparr>sources = [(CNPJA, Normal), (ReceitaWS, SIMEI)], confirmed = Some SIMEI,
         needsWarning = True\<rparr>,
      UpdateCardWithIEData (Some cnpjaNormal) (Some ''SP'')]
   \<and> \<not> cardOnScreen (runArrivals [] initState)
   \<and> events (runArrivals ([] @ [(ReceitaWS, Some receitaWsSimei)]) initState) =
     [RenderCardFromReceitaWS receitaWsSimei
        \<lparr>sources = [(ReceitaWS, SIMEI)], confirmed = Some SIMEI, needsWarning = False\<rparr>,
      UpdateCardWithIEData None (Some ''SP'')]"
proof -
  have l: "cnpjaThenReceitaWs = [(CNPJA, Some cnpjaNormal)] @ [(ReceitaWS, Some receitaWsSimei)]"
    by (simp add: cnpjaThenReceitaWs_def)
  have v: "votesOf cnpjaThenReceitaWs = [(CNPJA, Normal), (ReceitaWS, SIMEI)]"
    by (simp add: cnpjaThenReceitaWs_def getTaxRegimeFromData_def cnpjaNormal_def
        receitaWsSimei_def noData_def)
  have ne: "votesOf cnpjaThenReceitaWs \<noteq> []" by (simp only: v) simp
  have c: "taxRegimeConsensus (runArrivals cnpjaThenReceitaWs initState)
      = \<lparr>sources = [(CNPJA, Normal), (ReceitaWS, SIMEI)], confirmed = Some SIMEI,
         needsWarning = True\<rparr>"
    unfolding run_init_consensus[OF ne] v by (simp add: tally_def priorityLabel_def Let_def)
  have g: "fst (getTaxRegimeInfo \<lparr>sources = [(CNPJA, Normal), (ReceitaWS, SIMEI)],
      confirmed = Some SIMEI, needsWarning = True\<rparr>) = ''S I M E I'' @ warningIcon"
    by (simp add: getTaxRegimeInfo_def regimeMap_def)
  have u: "uf receitaWsSimei = Some ''SP''" by (simp add: receitaWsSimei_def)
  have p: "[(CNPJA, Some cnpjaNormal)] = [] @ (CNPJA, Some cnpjaNormal) # []
      \<and> CNPJA \<notin> fst ` set []" by simp
  have q: "votesOf [(CNPJA, Some cnpjaNormal)] \<noteq> [] \<and> failuresOf [(CNPJA, Some cnpjaNormal)] < 3"
    by simp
  note t = authoritative_success_rerenders[of "[(CNPJA, Some cnpjaNormal)]" receitaWsSimei
      "[]" cnpjaNormal "[]"]
  from t q have on: "cardOnScreen (runArrivals [(CNPJA, Some cnpjaNormal)] initState)"
    by blast
  from t p have cache: "cnpjaDataCache (runArrivals [(CNPJA, Some cnpjaNormal)] initState)
      = Some cnpjaNormal"
    by blast
  from t have "events (runArrivals cnpjaThenReceitaWs initState) =
     events (runArrivals [(CNPJA, Some cnpjaNormal)] initState) @
       (if cardOnScreen (runArrivals [(CNPJA, Some cnpjaNormal)] initState)
        then [TaxRegimeDisplay
                (fst (getTaxRegimeInfo
                   (taxRegimeConsensus (runArrivals cnpjaThenReceitaWs initState))))]
        else []) @
       [RenderCardFromReceitaWS receitaWsSimei
          (taxRegimeConsensus (runArrivals cnpjaThenReceitaWs initState)),
        UpdateCardWithIEData (cnpjaDataCache (runArrivals [(CNPJA, Some cnpjaNormal)] initState))
          (uf receitaWsSimei)]"
    unfolding l[symmetric] by blast
  then have e1: "events (runArrivals cnpjaThenReceitaWs initState) =
     [RenderCardFromCNPJA cnpjaNormal
        \<lparr>sources = [(CNPJA, Normal)], confirmed = Some Normal, needsWarning = False\<rparr>,
      TaxRegimeDisplay (''S I M E I'' @ warningIcon),
      RenderCardFromReceitaWS receitaWsSimei
        \<lparr>sources = [(CNPJA, Normal), (ReceitaWS, SIMEI)], confirmed = Some SIMEI,
         needsWarning = True\<rparr>,
      UpdateCardWithIEData (Some cnpjaNormal) (Some ''SP'')]"
    by (simp only: run_single_cnpja c g u on cache if_True) simp
  have off: "\<not> cardOnScreen (runArrivals [] initState)" "events (runArrivals [] initState) = []"
    "cnpjaDataCache (runArrivals [] initState) = None"
    by (simp_all add: initState_def)
  have v0: "votesOf ([] @ [(ReceitaWS, Some receitaWsSimei)]) = [(ReceitaWS, SIMEI)]"
    by (simp add: getTaxRegimeFromData_def receitaWsSimei_def noData_def)
  have ne0: "votesOf ([] @ [(ReceitaWS, Some receitaWsSimei)]) \<noteq> []" by (simp only: v0) simp
  have c0: "taxRegimeConsensus (runArrivals ([] @ [(ReceitaWS, Some receitaWsSimei)]) initState)
      = \<lparr>sources = [(ReceitaWS, SIMEI)], confirmed = Some SIMEI, needsWarning = False\<rparr>"
    unfolding run_init_consensus[OF ne0] v0 by (simp add: tally_def priorityLabel_def Let_def)
  from authoritative_success_rerenders[of "[]" receitaWsSimei]
  have "events (runArrivals ([] @ [(ReceitaWS, Some receitaWsSimei)]) initState) =
     events (runArrivals [] initState) @
       (if cardOnScreen (runArrivals [] initState)
        then [TaxRegimeDisplay
                (fst (getTaxRegimeInfo
                   (taxRegimeConsensus
                      (runArrivals ([] @ [(ReceitaWS, Some receitaWsSimei)]) initState))))]
        else []) @
       [RenderCardFromReceitaWS receitaWsSimei
          (taxRegimeConsensus (runArrivals ([] @ [(ReceitaWS, Some receitaWsSimei)]) initState)),
        UpdateCardWithIEData (cnpjaDataCache (runArrivals [] initState)) (uf receitaWsSimei)]"
    by blast
  then have e0: "events (runArrivals ([] @ [(ReceitaWS, Some receitaWsSimei)]) initState) =
     [RenderCardFromReceitaWS receitaWsSimei
        \<lparr>sources = [(ReceitaWS, SIMEI)], confirmed = Some SIMEI, needsWarning = False\<rparr>,
      UpdateCardWithIEData None (Some ''SP'')]"
    by (simp only: off c0 u if_False) simp
  from q on e1 off(1) e0 show ?thesis by blast
qed

section \<open>Orchestrator: the secondary providers\<close>

lemma secondary_late_keeps_card:
  assumes "hasRendered st"
  shows "filter isFullRender (events (handleCnpjaResponse (Some d) st))
           = filter isFullRender (events st)"
    and "filter isFullRender (events (handleMinhaReceitaResponse (Some d) st))
           = filter isFullRender (events st)"
  using assms
  by (simp_all add: handleCnpja_success handleMinhaReceita_success split: option.splits)

lemma secondary_first_renders:
  assumes "\<not> hasRendered st" and "receitaWsDataCache st = None"
  shows "events (handleCnpjaResponse (Some d) st)
           = events st @
               [RenderCardFromCNPJA d (taxRegimeConsensus (handleCnpjaResponse (Some d) st))]"
    and "events (handleMinhaReceitaResponse (Some d) st)
           = events st @
               [RenderCardFromMinhaReceita d
                  (taxRegimeConsensus (handleMinhaReceitaResponse (Some d) st)),
                preliminaryNotice]"
  using assms by (simp_all add: handleCnpja_success handleMinhaReceita_success)

text \<open>
  Claim C5 at the input where the code departs from it: CNPJ.A answers first, before
  any render and before ReceitaWS. The card is rendered from the CNPJ.A record and no
  notice of preliminary data follows, whereas MinhaReceita answering first in the same
  state renders and then adds the notice.
\<close>

theorem cnpja_first_render_without_notice:
  "events (runArrivals [(CNPJA, Some cnpjaNormal)] initState) =
     [RenderCardFromCNPJA cnpjaNormal
        \<lparr>sources = [(CNPJA, Normal)], confirmed = Some Normal, needsWarning = False\<rparr>]
   \<and> preliminaryNotice \<notin> set (events (runArrivals [(CNPJA, Some cnpjaNormal)] initState))
   \<and> events (runArrivals [(MinhaReceita, Some minhaReceitaNormal)] initState) =
     [RenderCardFromMinhaReceita minhaReceitaNormal
        \<lparr>sources = [(MinhaReceita, Normal)], confirmed = Some Normal, needsWarning = False\<rparr>,
      preliminaryNotice]"
  by (simp only: run_single_cnpja run_single_minhaReceita) (simp add: preliminaryNotice_def)


section \<open>Adapters: unfolding the retry loops\<close>

lemma receitaWs_loop_4: "consultarReceitaWS_loop env 4 = (None, [])"
  by (subst consultarReceitaWS_loop.simps) (simp add: MAX_RETRIES_ReceitaWS_def)

lemma receitaWs_loop_3:
  "consultarReceitaWS_loop env 3 =
     (case receitaWsAttempt (env 3) of
        Some result \<Rightarrow> (Some result, [Fetch])
      | None \<Rightarrow> (None, [Fetch]))"
  by (subst consultarReceitaWS_loop.simps)
     (simp add: MAX_RETRIES_ReceitaWS_def receitaWs_loop_4 split: option.split)

lemma receitaWs_loop_2:
  "consultarReceitaWS_loop env 2 =
     (case receitaWsAttempt (env 2) of
        Some result \<Rightarrow> (Some result, [Fetch])
      | None \<Rightarrow>
          (fst (consultarReceitaWS_loop env 3),
           Fetch # Delay 1500 # snd (consultarReceitaWS_loop env 3)))"
  by (subst consultarReceitaWS_loop.simps)
     (simp add: MAX_RETRIES_ReceitaWS_def RETRY_DELAY_MS_def case_prod_unfold
        del: One_nat_def split: option.split)

lemma receitaWs_loop_1:
  "consultarReceitaWS_loop env 1 =
     (case receitaWsAttempt (env 1) of
        Some result \<Rightarrow> (Some result, [Fetch])
      | None \<Rightarrow>
          (fst (consultarReceitaWS_loop env 2),
           Fetch # Delay 1500 # snd (consultarReceitaWS_loop env 2)))"
  by (subst consultarReceitaWS_loop.simps)
     (simp add: MAX_RETRIES_ReceitaWS_def RETRY_DELAY_MS_def case_prod_unfold
        del: One_nat_def split: option.split)

lemma consultarReceitaWS_unfolded:
  "consultarReceitaWS env =
     (case receitaWsAttempt (env 1) of
        Some r1 \<Rightarrow> (Some r1, [Fetch])
      | None \<Rightarrow>
          (case receitaWsAttempt (env 2) of
             Some r2 \<Rightarrow> (Some r2, [Fetch, Delay 1500, Fetch])
           | None \<Rightarrow>
               (case receitaWsAttempt (env 3) of
                  Some r3 \<Rightarrow> (Some r3, [Fetch, Delay 1500, Fetch, Delay 1500, Fetch])
                | None \<Rightarrow> (None, [Fetch, Delay 1500, Fetch, Delay 1500, Fetch]))))"
  unfolding consultarReceitaWS_def receitaWs_loop_1 receitaWs_loop_2 receitaWs_loop_3
  by (simp split: option.split)

lemma minhaReceita_loop_3: "consultarMinhaReceitaAPI_loop env 3 = (None, [])"
  by (subst consultarMinhaReceitaAPI_loop.simps) (simp add: MAX_RETRIES_MinhaReceita_def)

lemma minhaReceita_loop_2:
  "consultarMinhaReceitaAPI_loop env 2 =
     (case minhaReceitaAttempt (env 2) of
        Some result \<Rightarrow> (Some result, [Fetch])
      | None \<Rightarrow> (None, [Fetch]))"
  by (subst consultarMinhaReceitaAPI_loop.simps)
     (simp add: MAX_RETRIES_MinhaReceita_def minhaReceita_loop_3 split: option.split)

lemma minhaReceita_loop_1:
  "consultarMinhaReceitaAPI_loop env 1 =
     (case minhaReceitaAttempt (env 1) of
        Some result \<Rightarrow> (Some result, [Fetch])
      | None \<Rightarrow>
          (fst (consultarMinhaReceitaAPI_loop env 2),
           Fetch # Delay 1500 # snd (consultarMinhaReceitaAPI_loop env 2)))"
  by (subst consultarMinhaReceitaAPI_loop.simps)
     (simp add: MAX_RETRIES_MinhaReceita_def RETRY_DELAY_MS_def case_prod_unfold
        del: One_nat_def split: option.split)

lemma consultarMinhaReceitaAPI_unfolded:
  "consultarMinhaReceitaAPI env =
     (case minhaReceitaAttempt (env 1) of
        Some r1 \<Rightarrow> (Some r1, [Fetch])
      | None \<Rightarrow>
          (case minhaReceitaAttempt (env 2) of
             Some r2 \<Rightarrow> (Some r2, [Fetch, Delay 1500, Fetch])
           | None \<Rightarrow> (None, [Fetch, Delay 1500, Fetch])))"
  unfolding consultarMinhaReceitaAPI_def minhaReceita_loop_1 minhaReceita_loop_2
  by (simp split: option.split)

lemma consultarCNPJA_API_trace: "snd (consultarCNPJA_API env) = [Fetch]"
  by (simp add: consultarCNPJA_API_def split: fetch_outcome.split)

lemma receitaWsAttempt_fails:
  "receitaWsAttempt r = None \<longleftrightarrow>
     r = Throws \<or> (\<exists>s. r = HttpNotOk s) \<or> (\<exists>p. r = HttpOk p \<and> status p = Some ''ERROR'')"
  by (cases r) (simp_all add: receitaWsAttempt_def)

lemma receitaWsAttempt_succeeds:
  "receitaWsAttempt r = Some p \<longleftrightarrow> r = HttpOk p \<and> status p \<noteq> Some ''ERROR''"
  by (cases r) (auto simp: receitaWsAttempt_def)

lemma allThrow_attempts:
  "receitaWsAttempt (allThrow k) = None" "minhaReceitaAttempt (allThrow k) = None"
  by (simp_all add: allThrow_def receitaWsAttempt_def minhaReceitaAttempt_def)

lemma consultarReceitaWS_allThrow:
  "consultarReceitaWS allThrow = (None, [Fetch, Delay 1500, Fetch, Delay 1500, Fetch])"
  by (simp add: consultarReceitaWS_unfolded allThrow_attempts)

lemma consultarMinhaReceitaAPI_allThrow:
  "consultarMinhaReceitaAPI allThrow = (None, [Fetch, Delay 1500, Fetch])"
  by (simp add: consultarMinhaReceitaAPI_unfolded allThrow_attempts)

text \<open>
  Claim C8. In \<open>consultarReceitaWS\<close> an attempt fails exactly when something is thrown
  inside the \<open>try\<close> block, the response is not ok, or the decoded payload has status
  \<open>ERROR\<close>; a payload with that status never becomes the result. A failed first or
  second attempt is followed by a delay of 1500 ms and the next fetch, a successful one
  by nothing more. If the first two attempts fail and the third yields a payload without
  the error status, the adapter resolves to that payload after exactly two delays. If
  all three fail it resolves to \<open>null\<close> after three fetches and two delays; a thrown
  exception is one of the failures, so none reaches the caller.
\<close>

theorem receitaWs_retry_policy:
  "(receitaWsAttempt r = None \<longleftrightarrow>
      r = Throws \<or> (\<exists>s. r = HttpNotOk s) \<or> (\<exists>q. r = HttpOk q \<and> status q = Some ''ERROR''))
   \<and> (fst (consultarReceitaWS env) = Some p \<longrightarrow> status p \<noteq> Some ''ERROR'')
   \<and> snd (consultarReceitaWS env) =
        (if receitaWsAttempt (env 1) \<noteq> None then [Fetch]
         else if receitaWsAttempt (env 2) \<noteq> None then [Fetch, Delay 1500, Fetch]
         else [Fetch, Delay 1500, Fetch, Delay 1500, Fetch])
   \<and> (receitaWsAttempt (env 1) = None \<and> receitaWsAttempt (env 2) = None
        \<and> env 3 = HttpOk p3 \<and> status p3 \<noteq> Some ''ERROR'' \<longrightarrow>
        consultarReceitaWS env = (Some p3, [Fetch, Delay 1500, Fetch, Delay 1500, Fetch])
        \<and> delays (snd (consultarReceitaWS env)) = 2)
   \<and> (receitaWsAttempt (env 1) = None \<and> receitaWsAttempt (env 2) = None
        \<and> receitaWsAttempt (env 3) = None \<longrightarrow>
        consultarReceitaWS env = (None, [Fetch, Delay 1500, Fetch, Delay 1500, Fetch])
        \<and> attempts (snd (consultarReceitaWS env)) = 3)"
proof -
  have a: "fst (consultarReceitaWS env) = Some p \<Longrightarrow> status p \<noteq> Some ''ERROR''"
    by (auto simp: consultarReceitaWS_unfolded receitaWsAttempt_succeeds split: option.splits)
  have b: "snd (consultarReceitaWS env) =
        (if receitaWsAttempt (env 1) \<noteq> None then [Fetch]
         else if receitaWsAttempt (env 2) \<noteq> None then [Fetch, Delay 1500, Fetch]
         else [Fetch, Delay 1500, Fetch, Delay 1500, Fetch])"
    by (simp add: consultarReceitaWS_unfolded split: option.split)
  have c: "receitaWsAttempt (env 1) = None \<and> receitaWsAttempt (env 2) = None
        \<and> env 3 = HttpOk p3 \<and> status p3 \<noteq> Some ''ERROR'' \<Longrightarrow>
        consultarReceitaWS env = (Some p3, [Fetch, Delay 1500, Fetch, Delay 1500, Fetch])
        \<and> delays (snd (consultarReceitaWS env)) = 2"
    by (simp add: consultarReceitaWS_unfolded receitaWsAttempt_def delays_def)
  have d: "receitaWsAttempt (env 1) = None \<and> receitaWsAttempt (env 2) = None
        \<and> receitaWsAttempt (env 3) = None \<Longrightarrow>
        consultarReceitaWS env = (None, [Fetch, Delay 1500, Fetch, Delay 1500, Fetch])
        \<and> attempts (snd (consultarReceitaWS env)) = 3"
    by (simp add: consultarReceitaWS_unfolded attempts_def)
  from a b c d receitaWsAttempt_fails[of r] show ?thesis by blast
qed

theorem receitaWs_retry_policy_witness:
  "receitaWsAttempt (failFailOk 1) = None \<and> receitaWsAttempt (failFailOk 2) = None
   \<and> failFailOk 3 = HttpOk receitaWsSimei \<and> status receitaWsSimei \<noteq> Some ''ERROR''
   \<and> consultarReceitaWS failFailOk
       = (Some receitaWsSimei, [Fetch, Delay 1500, Fetch, Delay 1500, Fetch])
   \<and> delays (snd (consultarReceitaWS failFailOk)) = 2
   \<and> receitaWsAttempt (allThreeKinds 1) = None \<and> receitaWsAttempt (allThreeKinds 2) = None
   \<and> receitaWsAttempt (allThreeKinds 3) = None
   \<and> consultarReceitaWS allThreeKinds = (None, [Fetch, Delay 1500, Fetch, Delay 1500, Fetch])"
proof -
  have f: "receitaWsAttempt (failFailOk 1) = None" "receitaWsAttempt (failFailOk 2) = None"
    "failFailOk 3 = HttpOk receitaWsSimei" "status receitaWsSimei \<noteq> Some ''ERROR''"
    by (simp_all add: failFailOk_def receitaWsAttempt_def errorEnvelope_def receitaWsSimei_def)
  have k: "receitaWsAttempt (allThreeKinds 1) = None" "receitaWsAttempt (allThreeKinds 2) = None"
    "receitaWsAttempt (allThreeKinds 3) = None"
    by (simp_all add: allThreeKinds_def receitaWsAttempt_def errorEnvelope_def)
  from f k receitaWs_retry_policy[of _ failFailOk _ receitaWsSimei]
    receitaWs_retry_policy[of _ allThreeKinds]
  show ?thesis by blast
qed

lemma secondary_success_hasRendered:
  "hasRendered (handleCnpjaResponse (Some d) st) = (hasRendered st \<or> receitaWsDataCache st = None)"
  by (simp add: handleCnpjaResponse_def Let_def updateTaxConsensus_fields split: option.splits)

lemma receitaWs_success_full_render:
  "filter isFullRender (events (handleReceitaWsResponse (Some d) st)) =
     filter isFullRender (events st) @
       [RenderCardFromReceitaWS d (taxRegimeConsensus (handleReceitaWsResponse (Some d) st))]"
  by (simp add: handleReceitaWs_success)

lemma cnpjaThenReceitaWs_renders:
  "filter isFullRender (events (runArrivals cnpjaThenReceitaWs initState)) =
     [RenderCardFromCNPJA cnpjaNormal
        \<lparr>sources = [(CNPJA, Normal)], confirmed = Some Normal, needsWarning = False\<rparr>,
      RenderCardFromReceitaWS receitaWsSimei
        \<lparr>sources = [(CNPJA, Normal), (ReceitaWS, SIMEI)], confirmed = Some SIMEI,
         needsWarning = True\<rparr>]"
proof -
  have v: "votesOf cnpjaThenReceitaWs = [(CNPJA, Normal), (ReceitaWS, SIMEI)]"
    by (simp add: cnpjaThenReceitaWs_def getTaxRegimeFromData_def cnpjaNormal_def
        receitaWsSimei_def noData_def)
  have ne: "votesOf cnpjaThenReceitaWs \<noteq> []" by (simp only: v) simp
  have c: "taxRegimeConsensus (runArrivals cnpjaThenReceitaWs initState)
      = \<lparr>sources = [(CNPJA, Normal), (ReceitaWS, SIMEI)], confirmed = Some SIMEI,
         needsWarning = True\<rparr>"
    unfolding run_init_consensus[OF ne] v by (simp add: tally_def priorityLabel_def Let_def)
  have r: "runArrivals cnpjaThenReceitaWs initState
      = handleReceitaWsResponse (Some receitaWsSimei)
          (runArrivals [(CNPJA, Some cnpjaNormal)] initState)"
    by (simp add: cnpjaThenReceitaWs_def)
  have "filter isFullRender (events (runArrivals cnpjaThenReceitaWs initState)) =
      filter isFullRender (events (runArrivals [(CNPJA, Some cnpjaNormal)] initState)) @
        [RenderCardFromReceitaWS receitaWsSimei
           (taxRegimeConsensus (runArrivals cnpjaThenReceitaWs initState))]"
    unfolding r by (rule receitaWs_success_full_render)
  then show ?thesis by (simp only: run_single_cnpja c) simp
qed

text \<open>
  Claim C7, as stated, fails on the code. ReceitaWS is the provider whose success
  renders the card again over the card CNPJ.A rendered, and when every attempt fails its
  adapter fetches three times with two delays, not once; the adapter that fetches
  exactly once is that of CNPJ.A.
\<close>

theorem retry_policy_counterexample:
  "filter isFullRender (events (runArrivals cnpjaThenReceitaWs initState)) =
     [RenderCardFromCNPJA cnpjaNormal
        \<lparr>sources = [(CNPJA, Normal)], confirmed = Some Normal, needsWarning = False\<rparr>,
      RenderCardFromReceitaWS receitaWsSimei
        \<lparr>sources = [(CNPJA, Normal), (ReceitaWS, SIMEI)], confirmed = Some SIMEI,
         needsWarning = True\<rparr>]
   \<and> snd (consultarReceitaWS allThrow) = [Fetch, Delay 1500, Fetch, Delay 1500, Fetch]
   \<and> attempts (snd (consultarReceitaWS allThrow)) = 3
   \<and> attempts (snd (consultarCNPJA_API allThrow)) = 1"
  by (simp add: cnpjaThenReceitaWs_renders consultarReceitaWS_allThrow
      consultarCNPJA_API_trace attempts_def)

text \<open>
  Claim C7, amended. The adapter of ReceitaWS, the provider whose success renders the
  card whatever was shown before, makes one, two or three fetches with a delay of
  1500 ms between consecutive ones, and three when all fail. The adapter of CNPJ.A makes
  exactly one fetch and never waits. The adapter of MinhaReceita makes one or two fetches
  with a delay of 1500 ms between them, and two when all fail. After a render, a success
  of CNPJ.A or MinhaReceita renders no card.
\<close>

theorem retry_policies_per_provider:
  "snd (consultarCNPJA_API env) = [Fetch]
   \<and> (snd (consultarReceitaWS env) = [Fetch]
        \<or> snd (consultarReceitaWS env) = [Fetch, Delay 1500, Fetch]
        \<or> snd (consultarReceitaWS env) = [Fetch, Delay 1500, Fetch, Delay 1500, Fetch])
   \<and> snd (consultarReceitaWS allThrow) = [Fetch, Delay 1500, Fetch, Delay 1500, Fetch]
   \<and> (snd (consultarMinhaReceitaAPI env) = [Fetch]
        \<or> snd (consultarMinhaReceitaAPI env) = [Fetch, Delay 1500, Fetch])
   \<and> snd (consultarMinhaReceitaAPI allThrow) = [Fetch, Delay 1500, Fetch]
   \<and> filter isFullRender (events (handleReceitaWsResponse (Some d) st)) =
        filter isFullRender (events st) @
          [RenderCardFromReceitaWS d (taxRegimeConsensus (handleReceitaWsResponse (Some d) st))]
   \<and> (hasRendered st \<longrightarrow>
        filter isFullRender (events (handleCnpjaResponse (Some d) st))
          = filter isFullRender (events st)
        \<and> filter isFullRender (events (handleMinhaReceitaResponse (Some d) st))
          = filter isFullRender (events st))"
proof -
  have r: "snd (consultarReceitaWS env) = [Fetch]
        \<or> snd (consultarReceitaWS env) = [Fetch, Delay 1500, Fetch]
        \<or> snd (consultarReceitaWS env) = [Fetch, Delay 1500, Fetch, Delay 1500, Fetch]"
    by (simp add: consultarReceitaWS_unfolded split: option.split)
  have m: "snd (consultarMinhaReceitaAPI env) = [Fetch]
        \<or> snd (consultarMinhaReceitaAPI env) = [Fetch, Delay 1500, Fetch]"
    by (simp add: consultarMinhaReceitaAPI_unfolded split: option.split)
  from r m consultarCNPJA_API_trace[of env] receitaWs_success_full_render[of d st]
    secondary_late_keeps_card[of st d]
  show ?thesis by (simp add: consultarReceitaWS_allThrow consultarMinhaReceitaAPI_allThrow)
qed

theorem retry_policies_per_provider_witness:
  "hasRendered (runArrivals [(CNPJA, Some cnpjaNormal)] initState)
   \<and> filter isFullRender
        (events (handleMinhaReceitaResponse (Some minhaReceitaNormal)
           (runArrivals [(CNPJA, Some cnpjaNormal)] initState)))
       = filter isFullRender (events (runArrivals [(CNPJA, Some cnpjaNormal)] initState))
   \<and> snd (consultarReceitaWS failFailOk) = [Fetch, Delay 1500, Fetch, Delay 1500, Fetch]
   \<and> snd (consultarCNPJA_API failFailOk) = [Fetch]"
proof -
  have h: "hasRendered (runArrivals [(CNPJA, Some cnpjaNormal)] initState)"
    by (simp add: secondary_success_hasRendered initState_def)
  have f: "snd (consultarReceitaWS failFailOk) = [Fetch, Delay 1500, Fetch, Delay 1500, Fetch]"
    by (simp add: consultarReceitaWS_unfolded failFailOk_def receitaWsAttempt_def
        errorEnvelope_def receitaWsSimei_def)
  from h f retry_policies_per_provider[of failFailOk minhaReceitaNormal
      "runArrivals [(CNPJA, Some cnpjaNormal)] initState"]
  show ?thesis by blast
qed


section \<open>Validation: the loops compute the weighted sums\<close>

lemma fourteen_chars:
  assumes "length (ds :: string) = 14"
  obtains c0 c1 c2 c3 c4 c5 c6 c7 c8 c9 c10 c11 c12 c13
    where "ds = [c0, c1, c2, c3, c4, c5, c6, c7, c8, c9, c10, c11, c12, c13]"
  using assms by (auto simp: eval_nat_numeral length_Suc_conv)

lemma parseIntChar_digit: "isDigit c \<Longrightarrow> parseIntChar [c] = Some (digitValue c)"
  by (simp add: digitValue_def)

lemma list_all_limparCNPJ: "list_all isDigit (limparCNPJ s)"
  by (simp add: limparCNPJ_def list_all_iff)

lemma somaLoop_first:
  assumes "list_all isDigit [c0, c1, c2, c3, c4, c5, c6, c7, c8, c9, c10, c11]"
  shows "somaLoop [c0, c1, c2, c3, c4, c5, c6, c7, c8, c9, c10, c11] 12 12 (Some 0) 5
       = Some (weightedSum weights1 [c0, c1, c2, c3, c4, c5, c6, c7, c8, c9, c10, c11])"
  using assms
  by (simp add: eval_nat_numeral charAt_def weightedSum_def weights1_def digitValue_def Let_def)

lemma somaLoop_second:
  assumes "list_all isDigit [c0, c1, c2, c3, c4, c5, c6, c7, c8, c9, c10, c11, c12]"
  shows "somaLoop [c0, c1, c2, c3, c4, c5, c6, c7, c8, c9, c10, c11, c12] 13 13 (Some 0) 6
       = Some (weightedSum weights2 [c0, c1, c2, c3, c4, c5, c6, c7, c8, c9, c10, c11, c12])"
  using assms
  by (simp add: eval_nat_numeral charAt_def weightedSum_def weights2_def digitValue_def Let_def)

lemma digitValue_inj: "digitValue c = digitValue c' \<longleftrightarrow> c = c'"
  by (simp add: digitValue_def)

lemma repeatedDigit_replicate:
  assumes "length ds = 14" and "list_all isDigit ds"
  shows "repeatedDigit ds \<longleftrightarrow> (\<exists>c. ds = replicate 14 c)"
proof
  assume r: "repeatedDigit ds"
  then obtain c cs where d: "ds = c # cs" and a: "list_all (\<lambda>x. x = c) cs"
    by (auto simp: repeatedDigit_def split: list.splits)
  from a have "replicate (length cs) c = cs"
    by (intro replicate_length_same) (simp add: list_all_iff)
  moreover from d assms(1) have "length cs = 13" by simp
  ultimately have "cs = replicate 13 c" by simp
  with d have "ds = replicate 14 c" by (simp add: eval_nat_numeral)
  then show "\<exists>c. ds = replicate 14 c" ..
next
  assume "\<exists>c. ds = replicate 14 c"
  then obtain c where d: "ds = replicate 14 c" ..
  then have "ds = c # replicate 13 c" by (simp add: eval_nat_numeral)
  moreover from this assms(2) have "isDigit c" by simp
  ultimately show "repeatedDigit ds"
    by (simp add: repeatedDigit_def list_all_iff)
qed

lemma validarCNPJ_short: "length (limparCNPJ s) \<noteq> 14 \<Longrightarrow> \<not> validarCNPJ s"
  by (simp add: validarCNPJ_def Let_def)

lemma validarCNPJ_repeated: "repeatedDigit (limparCNPJ s) \<Longrightarrow> \<not> validarCNPJ s"
  by (simp add: validarCNPJ_def Let_def)

lemma validarCNPJ_digits:
  assumes len: "length (limparCNPJ s) = 14"
  shows "validarCNPJ s
           = (\<not> repeatedDigit (limparCNPJ s) \<and> checkDigitsMatch (limparCNPJ s))"
proof -
  from len obtain c0 c1 c2 c3 c4 c5 c6 c7 c8 c9 c10 c11 c12 c13
    where ds: "limparCNPJ s = [c0, c1, c2, c3, c4, c5, c6, c7, c8, c9, c10, c11, c12, c13]"
    by (rule fourteen_chars)
  have dg: "list_all isDigit [c0, c1, c2, c3, c4, c5, c6, c7, c8, c9, c10, c11, c12, c13]"
    using list_all_limparCNPJ[of s] by (simp only: ds)
  have d12: "list_all isDigit [c0, c1, c2, c3, c4, c5, c6, c7, c8, c9, c10, c11]"
    and d13: "list_all isDigit [c0, c1, c2, c3, c4, c5, c6, c7, c8, c9, c10, c11, c12]"
    and i12: "isDigit c12" and i13: "isDigit c13"
    using dg by simp_all
  have t12: "take 12 [c0, c1, c2, c3, c4, c5, c6, c7, c8, c9, c10, c11, c12, c13]
      = [c0, c1, c2, c3, c4, c5, c6, c7, c8, c9, c10, c11]"
    and t13: "take 13 [c0, c1, c2, c3, c4, c5, c6, c7, c8, c9, c10, c11, c12, c13]
      = [c0, c1, c2, c3, c4, c5, c6, c7, c8, c9, c10, c11, c12]"
    and dr: "drop 12 [c0, c1, c2, c3, c4, c5, c6, c7, c8, c9, c10, c11, c12, c13] = [c12, c13]"
    by (simp_all add: eval_nat_numeral)
  have n12: "[c0, c1, c2, c3, c4, c5, c6, c7, c8, c9, c10, c11, c12, c13] ! 12 = c12"
    and n13: "[c0, c1, c2, c3, c4, c5, c6, c7, c8, c9, c10, c11, c12, c13] ! 13 = c13"
    by (simp_all add: eval_nat_numeral)
  have p0: "parseIntChar (charAt [c12, c13] 0) = Some (digitValue c12)"
    and p1: "parseIntChar (charAt [c12, c13] 1) = Some (digitValue c13)"
    using i12 i13 by (simp_all add: charAt_def digitValue_def)
  have v: "validarCNPJ s =
      (if repeatedDigit (limparCNPJ s) then False
       else if \<not> strictEq (resultadoOf (somaLoop (take 12 (limparCNPJ s)) 12 12 (Some 0) 5))
                   (parseIntChar (charAt (drop 12 (limparCNPJ s)) 0))
       then False
       else strictEq (resultadoOf (somaLoop (take 13 (limparCNPJ s)) 13 13 (Some 0) 6))
                   (parseIntChar (charAt (drop 12 (limparCNPJ s)) 1)))"
    by (simp add: validarCNPJ_def Let_def len)
  show ?thesis
    unfolding v checkDigitsMatch_def
    unfolding ds t12 t13 dr n12 n13 somaLoop_first[OF d12] somaLoop_second[OF d13] p0 p1
    by (simp add: mod11Digit_def)
qed

lemma mutated_check_digit:
  assumes v: "validarCNPJ s" and ne: "d \<noteq> limparCNPJ s ! k" and k: "k = 12 \<or> k = 13"
    and m: "limparCNPJ s' = (limparCNPJ s)[k := d]"
  shows "\<not> validarCNPJ s'"
proof -
  have len: "length (limparCNPJ s) = 14"
    using v validarCNPJ_short[of s] by blast
  have c: "checkDigitsMatch (limparCNPJ s)"
    using v validarCNPJ_digits[OF len] by simp
  have len': "length (limparCNPJ s') = 14"
    using len m by simp
  have "\<not> checkDigitsMatch (limparCNPJ s')"
  proof
    assume c': "checkDigitsMatch (limparCNPJ s')"
    from k show False
    proof
      assume k12: "k = 12"
      have "take 12 (limparCNPJ s') = take 12 (limparCNPJ s)"
        unfolding m k12 by (rule take_update_cancel) simp
      moreover have "limparCNPJ s' ! 12 = d"
        unfolding m k12 using len by simp
      ultimately have "digitValue d = digitValue (limparCNPJ s ! 12)"
        using c c' by (simp add: checkDigitsMatch_def)
      then show False using ne k12 by (simp add: digitValue_inj)
    next
      assume k13: "k = 13"
      have "take 13 (limparCNPJ s') = take 13 (limparCNPJ s)"
        unfolding m k13 by (rule take_update_cancel) simp
      moreover have "limparCNPJ s' ! 13 = d"
        unfolding m k13 using len by simp
      ultimately have "digitValue d = digitValue (limparCNPJ s ! 13)"
        using c c' by (simp add: checkDigitsMatch_def)
      then show False using ne k13 by (simp add: digitValue_inj)
    qed
  qed
  then show ?thesis using validarCNPJ_digits[OF len'] by simp
qed

lemma validar_examples:
  "\<not> validarCNPJ ''11.111.111/1111-11''"
  "validarCNPJ ''11.222.333/0001-81''"
  by code_simp+

lemma limpar_examples:
  "limparCNPJ ''11.222.333/0001-81'' = ''11222333000181''"
  "limparCNPJ ''11.222.333/0001-91'' = ''11222333000191''"
  "limparCNPJ ''11.222.333/0001-80'' = ''11222333000180''"
  "limparCNPJ ''11.222.333/0001'' = ''112223330001''"
  "isDigit CHR ''9''" "isDigit CHR ''0''"
  by code_simp+

text \<open>
  Claim C9. \<open>validarCNPJ\<close> rejects an input that does not leave exactly 14 digits when
  everything but digits is removed, and rejects 14 equal digits, as in
  \<open>11.111.111/1111-11\<close>. For any other 14 digits it accepts exactly when the weighted
  modulo-11 check digit of the first twelve digits is the thirteenth digit and that of
  the first thirteen is the fourteenth. So replacing the thirteenth or the fourteenth
  digit of an accepted input by another digit gives an input that is rejected.
\<close>

theorem validarCNPJ_checks:
  "(length (limparCNPJ s) \<noteq> 14 \<longrightarrow> \<not> validarCNPJ s)
   \<and> (limparCNPJ s = replicate 14 c \<longrightarrow> \<not> validarCNPJ s)
   \<and> \<not> validarCNPJ ''11.111.111/1111-11''
   \<and> (length (limparCNPJ s) = 14 \<and> (\<forall>c. limparCNPJ s \<noteq> replicate 14 c) \<longrightarrow>
        validarCNPJ s = checkDigitsMatch (limparCNPJ s))
   \<and> (validarCNPJ s \<and> isDigit d \<and> d \<noteq> limparCNPJ s ! 12
        \<and> limparCNPJ s' = (limparCNPJ s)[12 := d] \<longrightarrow> \<not> validarCNPJ s')
   \<and> (validarCNPJ s \<and> isDigit d \<and> d \<noteq> limparCNPJ s ! 13
        \<and> limparCNPJ s' = (limparCNPJ s)[13 := d] \<longrightarrow> \<not> validarCNPJ s')"
proof -
  have a: "limparCNPJ s = replicate 14 c \<Longrightarrow> \<not> validarCNPJ s"
  proof -
    assume r: "limparCNPJ s = replicate 14 c"
    then have l: "length (limparCNPJ s) = 14" by simp
    have "repeatedDigit (limparCNPJ s)"
      using repeatedDigit_replicate[OF l list_all_limparCNPJ] r by blast
    then show ?thesis by (rule validarCNPJ_repeated)
  qed
  have b: "length (limparCNPJ s) = 14 \<and> (\<forall>c. limparCNPJ s \<noteq> replicate 14 c) \<Longrightarrow>
        validarCNPJ s = checkDigitsMatch (limparCNPJ s)"
  proof -
    assume h: "length (limparCNPJ s) = 14 \<and> (\<forall>c. limparCNPJ s \<noteq> replicate 14 c)"
    then have l: "length (limparCNPJ s) = 14" ..
    have "\<not> repeatedDigit (limparCNPJ s)"
      using repeatedDigit_replicate[OF l list_all_limparCNPJ] h by blast
    then show ?thesis using validarCNPJ_digits[OF l] by simp
  qed
  have m12: "validarCNPJ s \<and> isDigit d \<and> d \<noteq> limparCNPJ s ! 12
        \<and> limparCNPJ s' = (limparCNPJ s)[12 := d] \<Longrightarrow> \<not> validarCNPJ s'"
    using mutated_check_digit[of s d 12 s'] by blast
  have m13: "validarCNPJ s \<and> isDigit d \<and> d \<noteq> limparCNPJ s ! 13
        \<and> limparCNPJ s' = (limparCNPJ s)[13 := d] \<Longrightarrow> \<not> validarCNPJ s'"
    using mutated_check_digit[of s d 13 s'] by blast
  from validarCNPJ_short[of s] a validar_examples(1) b m12 m13 show ?thesis by blast
qed

theorem validarCNPJ_checks_witness:
  "validarCNPJ ''11.222.333/0001-81''
   \<and> length (limparCNPJ ''11.222.333/0001-81'') = 14
   \<and> checkDigitsMatch (limparCNPJ ''11.222.333/0001-81'')
   \<and> \<not> validarCNPJ ''11.222.333/0001-91''
   \<and> \<not> validarCNPJ ''11.222.333/0001-80''
   \<and> length (limparCNPJ ''11.222.333/0001'') \<noteq> 14
   \<and> \<not> validarCNPJ ''11.222.333/0001''
   \<and> limparCNPJ ''00.000.000/0000-00'' = replicate 14 CHR ''0''
   \<and> \<not> validarCNPJ ''00.000.000/0000-00''"
proof -
  have v: "validarCNPJ ''11.222.333/0001-81''" by (rule validar_examples(2))
  have l: "length (limparCNPJ ''11.222.333/0001-81'') = 14" by (simp add: limpar_examples)
  have n: "\<forall>c. limparCNPJ ''11.222.333/0001-81'' \<noteq> replicate 14 c"
    by (simp add: limpar_examples eval_nat_numeral)
  have m12: "CHR ''9'' \<noteq> limparCNPJ ''11.222.333/0001-81'' ! 12
      \<and> limparCNPJ ''11.222.333/0001-91'' = (limparCNPJ ''11.222.333/0001-81'')[12 := CHR ''9'']"
    by (simp add: limpar_examples eval_nat_numeral)
  have m13: "CHR ''0'' \<noteq> limparCNPJ ''11.222.333/0001-81'' ! 13
      \<and> limparCNPJ ''11.222.333/0001-80'' = (limparCNPJ ''11.222.333/0001-81'')[13 := CHR ''0'']"
    by (simp add: limpar_examples eval_nat_numeral)
  have s: "length (limparCNPJ ''11.222.333/0001'') \<noteq> 14" by (simp add: limpar_examples)
  have z: "limparCNPJ ''00.000.000/0000-00'' = replicate 14 CHR ''0''" by code_simp
  from v l n m12 m13 s z limpar_examples(5,6)
    validarCNPJ_checks[of "''11.222.333/0001-81''" _ "CHR ''9''" "''11.222.333/0001-91''"]
    validarCNPJ_checks[of "''11.222.333/0001-81''" _ "CHR ''0''" "''11.222.333/0001-80''"]
    validarCNPJ_checks[of "''11.222.333/0001''"]
    validarCNPJ_checks[of "''00.000.000/0000-00''" "CHR ''0''"]
  show ?thesis by blast
qed

end
